theory Spec2Isabelle
  imports Complex_Main
begin

section \<open>Numbers\<close>

text \<open>
  The program computes with JavaScript numbers, which are IEEE 754 doubles. Two models
  of them are used.

  The type \<open>double\<close> is the faithful one: a finite number, one of the two infinities or
  \<^verbatim>\<open>NaN\<close>, where every arithmetic operation is computed exactly and then rounded to the
  nearest double, a tie to the even mantissa, and overflows to an infinity. The sign of
  zero is not modelled. The vertical scale of the chart and the balances of the accounts
  compute in it, and the projection when it is used at this type.

  The type \<open>jsnum\<close> has the same four kinds of value and exact arithmetic, without
  rounding. The horizontal scale of the chart computes in it. Both types keep the values
  that are not finite, because the program produces them from finite data:
  \<^verbatim>\<open>Math.max()\<close> of no arguments is \<^verbatim>\<open>-Infinity\<close>, a division by zero gives \<^verbatim>\<open>NaN\<close> or an
  infinity, and \<^verbatim>\<open>||\<close> tests for \<^verbatim>\<open>0\<close> and \<^verbatim>\<open>NaN\<close>.
\<close>

subsection \<open>Exact arithmetic\<close>

datatype jsnum = Fin real | PInf | NInf | NaN

instantiation jsnum :: "{uminus, plus, minus, times, inverse}"
begin

fun uminus_jsnum :: "jsnum \<Rightarrow> jsnum" where
  "uminus_jsnum (Fin a) = Fin (- a)"
| "uminus_jsnum PInf = NInf"
| "uminus_jsnum NInf = PInf"
| "uminus_jsnum NaN = NaN"

fun plus_jsnum :: "jsnum \<Rightarrow> jsnum \<Rightarrow> jsnum" where
  "plus_jsnum (Fin a) (Fin b) = Fin (a + b)"
| "plus_jsnum NaN b = NaN"
| "plus_jsnum a NaN = NaN"
| "plus_jsnum PInf NInf = NaN"
| "plus_jsnum NInf PInf = NaN"
| "plus_jsnum PInf b = PInf"
| "plus_jsnum a PInf = PInf"
| "plus_jsnum NInf b = NInf"
| "plus_jsnum a NInf = NInf"

definition minus_jsnum :: "jsnum \<Rightarrow> jsnum \<Rightarrow> jsnum" where
  "minus_jsnum a b = a + (- b)"

fun times_jsnum :: "jsnum \<Rightarrow> jsnum \<Rightarrow> jsnum" where
  "times_jsnum (Fin a) (Fin b) = Fin (a * b)"
| "times_jsnum NaN b = NaN"
| "times_jsnum a NaN = NaN"
| "times_jsnum (Fin a) b = (if a = 0 then NaN else if 0 < a then b else - b)"
| "times_jsnum a (Fin b) = (if b = 0 then NaN else if 0 < b then a else - a)"
| "times_jsnum PInf b = b"
| "times_jsnum NInf b = - b"

text \<open>
  Division: a finite number over zero is \<^verbatim>\<open>NaN\<close> when it is zero itself and an
  infinity of its own sign otherwise (the zero divisors of this program are results of
  \<^verbatim>\<open>length - 1\<close>, which are positive zeros); a finite number over an infinity is zero.
\<close>

fun divide_jsnum :: "jsnum \<Rightarrow> jsnum \<Rightarrow> jsnum" where
  "divide_jsnum (Fin a) (Fin b) =
     (if b \<noteq> 0 then Fin (a / b)
      else if a = 0 then NaN else if 0 < a then PInf else NInf)"
| "divide_jsnum NaN b = NaN"
| "divide_jsnum a NaN = NaN"
| "divide_jsnum (Fin a) b = Fin 0"
| "divide_jsnum a (Fin b) = (if 0 \<le> b then a else - a)"
| "divide_jsnum a b = NaN"

definition inverse_jsnum :: "jsnum \<Rightarrow> jsnum" where
  "inverse_jsnum a = divide (Fin 1) a"

instance ..

end

subsection \<open>Doubles\<close>

datatype double = Finite real | Infinity | NegInfinity | NotANumber

text \<open>
  The unit in the last place of a number \<open>a \<ge> 0\<close>: \<open>2\<^sup>e\<^sup>-\<^sup>5\<^sup>2\<close> when \<open>2\<^sup>e \<le> a < 2\<^sup>e\<^sup>+\<^sup>1\<close>, and
  \<open>2\<^sup>-\<^sup>1\<^sup>0\<^sup>7\<^sup>4\<close> for every \<open>a\<close> below \<open>2\<^sup>-\<^sup>1\<^sup>0\<^sup>2\<^sup>1\<close> (the subnormal numbers and the lowest normal
  binade). It is found by halving \<open>a\<close> down to \<open>[1, 2)\<close>, or by doubling it up to there
  in at most 1022 steps.
\<close>

function ulp_up :: "real \<Rightarrow> real \<Rightarrow> real" where
  "ulp_up a u = (if a < 2 then u else ulp_up (a / 2) (2 * u))"
  by pat_completeness auto
termination
proof (relation "measure (\<lambda>(a, u). nat \<lfloor>a\<rfloor>)")
  show "wf (measure (\<lambda>(a, u). nat \<lfloor>a\<rfloor>))" by simp
next
  fix a u :: real
  assume "\<not> a < 2"
  then have "\<lfloor>a / 2\<rfloor> < \<lfloor>a\<rfloor>" "0 < \<lfloor>a\<rfloor>" by linarith+
  then show "((a / 2, 2 * u), (a, u)) \<in> measure (\<lambda>(a, u). nat \<lfloor>a\<rfloor>)" by simp
qed

function ulp_down :: "nat \<Rightarrow> real \<Rightarrow> real \<Rightarrow> real" where
  "ulp_down k a u = (if 1 \<le> a \<or> 1022 \<le> k then u else ulp_down (Suc k) (2 * a) (u / 2))"
  by pat_completeness auto
termination
  by (relation "measure (\<lambda>(k, a, u). 1022 - k)") auto

declare ulp_up.simps [simp del] ulp_down.simps [simp del]

definition ulp :: "real \<Rightarrow> real" where
  "ulp a = (if 1 \<le> a then ulp_up a (1 / 2 ^ 52) else ulp_down 0 a (1 / 2 ^ 52))"

text \<open>Rounding to the nearest integer, a tie to the even one.\<close>

definition rne :: "real \<Rightarrow> int" where
  "rne q =
     (let f = \<lfloor>q\<rfloor>; d = q - of_int f
      in if d < 1 / 2 then f else if 1 / 2 < d then f + 1 else if even f then f else f + 1)"

text \<open>
  Rounding a real to a double: the nearest multiple of the unit in the last place; a
  result of size \<open>2\<^sup>1\<^sup>0\<^sup>2\<^sup>4\<close> or more is an infinity.
\<close>

definition rnd_val :: "real \<Rightarrow> real" where
  "rnd_val x = of_int (rne (x / ulp \<bar>x\<bar>)) * ulp \<bar>x\<bar>"

definition huge :: real where
  "huge = 2 ^ 1024"

definition classify :: "real \<Rightarrow> double" where
  "classify r = (if huge \<le> r then Infinity else if r \<le> - huge then NegInfinity else Finite r)"

definition rnd :: "real \<Rightarrow> double" where
  "rnd x = (if x = 0 then Finite 0 else classify (rnd_val x))"

text \<open>
  The arithmetic of doubles and the comparisons \<^verbatim>\<open><=\<close> and \<^verbatim>\<open><\<close>, which are false on
  \<^verbatim>\<open>NaN\<close>. A zero divisor counts as a positive zero.
\<close>

instantiation double :: "{zero, one, uminus, plus, minus, times, inverse, ord}"
begin

definition zero_double :: double where
  "zero_double = Finite 0"

definition one_double :: double where
  "one_double = Finite 1"

fun uminus_double :: "double \<Rightarrow> double" where
  "uminus_double (Finite a) = Finite (- a)"
| "uminus_double Infinity = NegInfinity"
| "uminus_double NegInfinity = Infinity"
| "uminus_double NotANumber = NotANumber"

fun plus_double :: "double \<Rightarrow> double \<Rightarrow> double" where
  "plus_double (Finite a) (Finite b) = rnd (a + b)"
| "plus_double NotANumber b = NotANumber"
| "plus_double a NotANumber = NotANumber"
| "plus_double Infinity NegInfinity = NotANumber"
| "plus_double NegInfinity Infinity = NotANumber"
| "plus_double Infinity b = Infinity"
| "plus_double a Infinity = Infinity"
| "plus_double NegInfinity b = NegInfinity"
| "plus_double a NegInfinity = NegInfinity"

definition minus_double :: "double \<Rightarrow> double \<Rightarrow> double" where
  "minus_double a b = a + (- b)"

fun times_double :: "double \<Rightarrow> double \<Rightarrow> double" where
  "times_double (Finite a) (Finite b) = rnd (a * b)"
| "times_double NotANumber b = NotANumber"
| "times_double a NotANumber = NotANumber"
| "times_double (Finite a) b = (if a = 0 then NotANumber else if 0 < a then b else - b)"
| "times_double a (Finite b) = (if b = 0 then NotANumber else if 0 < b then a else - a)"
| "times_double Infinity b = b"
| "times_double NegInfinity b = - b"

fun divide_double :: "double \<Rightarrow> double \<Rightarrow> double" where
  "divide_double (Finite a) (Finite b) =
     (if b \<noteq> 0 then rnd (a / b)
      else if a = 0 then NotANumber else if 0 < a then Infinity else NegInfinity)"
| "divide_double NotANumber b = NotANumber"
| "divide_double a NotANumber = NotANumber"
| "divide_double (Finite a) b = Finite 0"
| "divide_double a (Finite b) = (if 0 \<le> b then a else - a)"
| "divide_double a b = NotANumber"

definition inverse_double :: "double \<Rightarrow> double" where
  "inverse_double a = divide (Finite 1) a"

fun less_eq_double :: "double \<Rightarrow> double \<Rightarrow> bool" where
  "less_eq_double (Finite a) (Finite b) = (a \<le> b)"
| "less_eq_double NotANumber b = False"
| "less_eq_double a NotANumber = False"
| "less_eq_double NegInfinity b = True"
| "less_eq_double a Infinity = True"
| "less_eq_double a b = False"

fun less_double :: "double \<Rightarrow> double \<Rightarrow> bool" where
  "less_double (Finite a) (Finite b) = (a < b)"
| "less_double NotANumber b = False"
| "less_double a NotANumber = False"
| "less_double Infinity b = False"
| "less_double a NegInfinity = False"
| "less_double a b = True"

instance ..

end

text \<open>\<^verbatim>\<open>a || b\<close> on numbers: \<^verbatim>\<open>0\<close> and \<^verbatim>\<open>NaN\<close> are the falsy numbers.\<close>

definition js_or :: "double \<Rightarrow> double \<Rightarrow> double" where
  "js_or a b = (if a = Finite 0 \<or> a = NotANumber then b else a)"

text \<open>\<^verbatim>\<open>Math.max(...vs)\<close>: the largest argument, \<^verbatim>\<open>-Infinity\<close> when there is none.\<close>

fun Math_max :: "real list \<Rightarrow> double" where
  "Math_max [] = NegInfinity"
| "Math_max (v # vs) = Finite (fold max vs v)"

text \<open>
  For the proofs about rounding: the smallest positive double, and what it is for \<open>u\<close>
  to be the unit in the last place of \<open>a\<close>.
\<close>

definition tiny :: real where
  "tiny = 1 / 2 ^ 1074"

definition is_ulp :: "real \<Rightarrow> real \<Rightarrow> bool" where
  "is_ulp a u = (\<exists>n::nat. u = 2 ^ n * tiny \<and> a < u * 2 ^ 53 \<and> (0 < n \<longrightarrow> u * 2 ^ 52 \<le> a))"


subsection \<open>Rounding of a pointer position\<close>

text \<open>\<^verbatim>\<open>Math.round\<close> rounds to the nearest integer, a half up.\<close>

definition Math_round :: "real \<Rightarrow> int" where
  "Math_round r = \<lfloor>r + 1 / 2\<rfloor>"

section \<open>Growth projection\<close>

text \<open>A projected point \<^verbatim>\<open>{year, value}\<close>, for a type \<open>'a\<close> of numbers.\<close>

record 'a pt =
  year :: int
  val :: 'a

text \<open>
  \<^verbatim>\<open>projectGrowth(start, yearlyAdd, years, rate)\<close>. The loop
  \<^verbatim>\<open>for (let y=0; y<=years; y++)\<close> carries the counter \<open>y\<close>, the running value \<open>v\<close>
  and the array \<open>pts\<close>. The calendar year read by \<^verbatim>\<open>new Date().getFullYear()\<close> is the
  parameter \<open>currentYear\<close>. The loop uses \<open>+\<close>, \<open>*\<close> and \<open>1\<close> only, and the type of the
  numbers is left open.
\<close>

function projectGrowth_loop ::
  "int \<Rightarrow> 'a::{plus,times,one} \<Rightarrow> int \<Rightarrow> 'a \<Rightarrow> int \<Rightarrow> 'a \<Rightarrow> 'a pt list \<Rightarrow> 'a pt list" where
  "projectGrowth_loop currentYear yearlyAdd years rate y v pts =
     (if y \<le> years then
        (let v' = (if 0 < y then (v + yearlyAdd) * (1 + rate) else v)
         in projectGrowth_loop currentYear yearlyAdd years rate (y + 1) v'
              (pts @ [\<lparr>year = currentYear + y, val = v'\<rparr>]))
      else pts)"
  by pat_completeness auto
termination
  by (relation "measure (\<lambda>(currentYear, yearlyAdd, years, rate, y, v, pts). nat (years + 1 - y))")
    auto

definition projectGrowth ::
  "int \<Rightarrow> 'a::{plus,times,one} \<Rightarrow> 'a \<Rightarrow> int \<Rightarrow> 'a \<Rightarrow> 'a pt list" where
  "projectGrowth currentYear start yearlyAdd years rate =
     projectGrowth_loop currentYear yearlyAdd years rate 0 start []"

text \<open>
  The recurrence of the projection written as a function of the index, to compare the
  loop with: \<open>value\<^sub>0 = start\<close> and \<open>value\<^sub>k\<^sub>+\<^sub>1 = (value\<^sub>k + yearlyAdd) * (1 + rate)\<close>.
\<close>

fun proj_val :: "'a::{plus,times,one} \<Rightarrow> 'a \<Rightarrow> 'a \<Rightarrow> nat \<Rightarrow> 'a" where
  "proj_val start yearlyAdd rate 0 = start"
| "proj_val start yearlyAdd rate (Suc k) =
     (proj_val start yearlyAdd rate k + yearlyAdd) * (1 + rate)"

definition proj_pt :: "int \<Rightarrow> 'a::{plus,times,one} \<Rightarrow> 'a \<Rightarrow> 'a \<Rightarrow> nat \<Rightarrow> 'a pt" where
  "proj_pt currentYear start yearlyAdd rate k =
     \<lparr>year = currentYear + int k, val = proj_val start yearlyAdd rate k\<rparr>"

section \<open>The chart\<close>

text \<open>A series of the chart. The values of its points are finite numbers.\<close>

record series =
  s_name :: string
  color :: string
  points :: "real pt list"

text \<open>The constants \<^verbatim>\<open>W=900, H=320, P=30\<close> and \<^verbatim>\<open>min = 0\<close> of \<^verbatim>\<open>AreaChart\<close>.\<close>

definition svgW :: real where "svgW = 900"
definition svgH :: real where "svgH = 320"
definition svgP :: real where "svgP = 30"
definition min_domain :: real where "min_domain = 0"

text \<open>\<^verbatim>\<open>series.flatMap(s=>s.points.map(p=>p.value))\<close>\<close>

definition all_values :: "series list \<Rightarrow> real list" where
  "all_values ss = concat (map (\<lambda>s. map val (points s)) ss)"

text \<open>
  \<^verbatim>\<open>max = Math.max(...all) * 1.05 || 1\<close>. The literal \<^verbatim>\<open>1.05\<close> denotes the double
  \<open>4728779608739021 / 2\<^sup>5\<^sup>2\<close>.
\<close>

definition lit_1_05 :: double where
  "lit_1_05 = Finite (4728779608739021 / 2 ^ 52)"

definition max_domain :: "series list \<Rightarrow> double" where
  "max_domain ss = js_or (Math_max (all_values ss) * lit_1_05) (Finite 1)"

text \<open>
  \<^verbatim>\<open>x = (i) => P + (i/(years.length-1))*(W-2*P)\<close>, with \<open>n\<close> for \<^verbatim>\<open>years.length\<close>.
\<close>

definition x_coord :: "nat \<Rightarrow> int \<Rightarrow> jsnum" where
  "x_coord n i =
     Fin svgP + (Fin (real_of_int i) / Fin (real n - 1)) * Fin (svgW - 2 * svgP)"

text \<open>
  \<^verbatim>\<open>y = (v) => H-P - (v-min)/(max-min||1)*(H-2*P)\<close>, with \<open>mx\<close> for \<^verbatim>\<open>max\<close>. The
  divisor is \<^verbatim>\<open>(max-min) || 1\<close>.
\<close>

definition y_denominator :: "double \<Rightarrow> double" where
  "y_denominator mx = js_or (mx - Finite min_domain) (Finite 1)"

definition y_coord :: "double \<Rightarrow> double \<Rightarrow> double" where
  "y_coord mx v =
     Finite svgH - Finite svgP -
       (v - Finite min_domain) / y_denominator mx * (Finite svgH - Finite 2 * Finite svgP)"

text \<open>
  A path is kept as its list of commands \<^verbatim>\<open>M x y\<close> and \<^verbatim>\<open>L x y\<close>; the text of the
  \<^verbatim>\<open>d\<close> attribute is not modelled.
\<close>

type_synonym path_cmd = "string \<times> jsnum \<times> double"

definition path :: "nat \<Rightarrow> double \<Rightarrow> real pt list \<Rightarrow> path_cmd list" where
  "path n mx pts =
     map (\<lambda>(i, p). (if i = 0 then ''M'' else ''L'', x_coord n (int i), y_coord mx (Finite (val p))))
       (enumerate 0 pts)"

definition area :: "nat \<Rightarrow> double \<Rightarrow> real pt list \<Rightarrow> path_cmd list" where
  "area n mx pts =
     path n mx pts @
       [(''L'', x_coord n (int (length pts) - 1), Finite svgH - Finite svgP),
        (''L'', x_coord n 0, Finite svgH - Finite svgP)]"

text \<open>
  Reading an array at a number: \<^verbatim>\<open>undefined\<close> outside \<open>0..length-1\<close>. Reading
  \<^verbatim>\<open>.value\<close> of \<^verbatim>\<open>undefined\<close> throws a \<^verbatim>\<open>TypeError\<close>, as does \<^verbatim>\<open>series[0].points\<close> on
  an empty array.
\<close>

datatype js_error = TypeError

definition index_js :: "'a list \<Rightarrow> int \<Rightarrow> 'a option" where
  "index_js xs i = (if 0 \<le> i \<and> i < int (length xs) then Some (xs ! nat i) else None)"

definition value_at :: "real pt list \<Rightarrow> int \<Rightarrow> js_error + real" where
  "value_at pts i = (case index_js pts i of None \<Rightarrow> Inl TypeError | Some p \<Rightarrow> Inr (val p))"

text \<open>\<^verbatim>\<open>xs.map(f)\<close> where \<open>f\<close> may throw: the first exception ends the traversal.\<close>

fun map_err :: "('a \<Rightarrow> js_error + 'b) \<Rightarrow> 'a list \<Rightarrow> js_error + 'b list" where
  "map_err f [] = Inr []"
| "map_err f (a # as) =
     (case f a of
        Inl e \<Rightarrow> Inl e
      | Inr b \<Rightarrow> (case map_err f as of Inl e \<Rightarrow> Inl e | Inr bs \<Rightarrow> Inr (b # bs)))"

text \<open>
  What one call of \<^verbatim>\<open>AreaChart\<close> renders for the series \<open>ss\<close> and the hover state
  \<open>hoverI\<close>: the filled areas and the lines of the series, the vertical guide and the
  dots when hovering, the labels of the x axis, the tooltip (its horizontal position in
  percent, the year, a row for each series) when hovering, and the legend. Amounts are
  kept as numbers; \<^verbatim>\<open>money\<close> formats them. The grid lines depend on no input and are
  left out. An exception thrown anywhere in the function ends the render.
\<close>

record view =
  areas :: "path_cmd list list"
  lines :: "path_cmd list list"
  guide :: "jsnum option"
  dots :: "(jsnum \<times> double) list"
  xlabels :: "(jsnum \<times> int) list"
  tooltip :: "(jsnum \<times> int option \<times> (string \<times> real) list) option"
  legend :: "(string \<times> real) list"

text \<open>\<^verbatim>\<open>legendIndex = hoverI ?? (years.length - 1)\<close>, with \<open>n\<close> for \<^verbatim>\<open>years.length\<close>.\<close>

definition legendIndex :: "nat \<Rightarrow> int option \<Rightarrow> int" where
  "legendIndex n hoverI = (case hoverI of None \<Rightarrow> int n - 1 | Some i \<Rightarrow> i)"

definition AreaChart :: "series list \<Rightarrow> int option \<Rightarrow> js_error + view" where
  "AreaChart ss hoverI =
     (case ss of
        [] \<Rightarrow> Inl TypeError
      | s0 # rest \<Rightarrow>
          (let years = map year (points s0);
               n = length years;
               mx = max_domain ss
           in case (case hoverI of
                      None \<Rightarrow> Inr []
                    | Some i \<Rightarrow> map_err (\<lambda>s. value_at (points s) i) ss) of
                Inl e \<Rightarrow> Inl e
              | Inr hv \<Rightarrow>
                  (case map_err (\<lambda>s. value_at (points s) (legendIndex n hoverI)) ss of
                     Inl e \<Rightarrow> Inl e
                   | Inr lv \<Rightarrow>
                       Inr \<lparr>areas = map (\<lambda>s. area n mx (points s)) ss,
                            lines = map (\<lambda>s. path n mx (points s)) ss,
                            guide = map_option (x_coord n) hoverI,
                            dots = (case hoverI of
                                      None \<Rightarrow> []
                                    | Some i \<Rightarrow> map (\<lambda>v. (x_coord n i, y_coord mx (Finite v))) hv),
                            xlabels = map (\<lambda>(i, yr). (x_coord n (int i), yr)) (enumerate 0 years),
                            tooltip = (case hoverI of
                                         None \<Rightarrow> None
                                       | Some i \<Rightarrow>
                                           Some (x_coord n i / Fin svgW * Fin 100,
                                                 index_js years i,
                                                 zip (map s_name ss) hv)),
                            legend = zip (map s_name ss) lv\<rparr>)))"

text \<open>The array \<^verbatim>\<open>s.points\<close> has an element at the index \<open>i\<close>.\<close>

definition has_point :: "series \<Rightarrow> int \<Rightarrow> bool" where
  "has_point s i = (0 \<le> i \<and> i < int (length (points s)))"

subsection \<open>Hover state\<close>

text \<open>
  The state of a mounted chart: the \<^verbatim>\<open>series\<close> it was last rendered with, the state
  variable \<^verbatim>\<open>hoverI\<close>, whether the parent passed \<^verbatim>\<open>onHoverIndexChange\<close>, and the
  arguments that callback has been called with, oldest first.
\<close>

record chart =
  series :: "series list"
  hoverI :: "int option"
  observed :: bool
  notified :: "int option list"

text \<open>\<^verbatim>\<open>onHoverIndexChange?.(i)\<close>\<close>

definition notify :: "int option \<Rightarrow> chart \<Rightarrow> chart" where
  "notify i c = (if observed c then c\<lparr>notified := notified c @ [i]\<rparr> else c)"

text \<open>
  \<^verbatim>\<open>handleMove(e)\<close>. The argument \<open>svg\<close> is \<open>None\<close> when \<^verbatim>\<open>svgRef.current\<close> is null and
  otherwise holds \<^verbatim>\<open>rect.left\<close>; \<open>clientX\<close> is \<^verbatim>\<open>e.clientX\<close>. The handler belongs to a
  render of a non-empty series list, whose first series gives \<^verbatim>\<open>years\<close>.
\<close>

definition handleMove :: "real option \<Rightarrow> real \<Rightarrow> chart \<Rightarrow> chart" where
  "handleMove svg clientX c =
     (case svg of
        None \<Rightarrow> c
      | Some left \<Rightarrow>
          (case series c of
             [] \<Rightarrow> c
           | s0 # rest \<Rightarrow>
               (let years = map year (points s0);
                    mx = clientX - left;
                    innerLeft = svgP;
                    innerRight = svgW - svgP;
                    clamped = max innerLeft (min innerRight mx);
                    t = (clamped - innerLeft) / (innerRight - innerLeft);
                    idx = Math_round (t * (real (length years) - 1))
                in notify (Some idx) (c\<lparr>hoverI := Some idx\<rparr>))))"

definition handleLeave :: "chart \<Rightarrow> chart" where
  "handleLeave c = notify None (c\<lparr>hoverI := None\<rparr>)"

text \<open>
  A render with new props. \<^verbatim>\<open>AreaChart\<close> declares \<^verbatim>\<open>hoverI\<close> with \<^verbatim>\<open>useState\<close> and has
  no effect and no key that depends on \<^verbatim>\<open>series\<close>, so the state variable keeps its
  value when the parent passes another series list.
\<close>

definition rerender :: "series list \<Rightarrow> chart \<Rightarrow> chart" where
  "rerender ss c = c\<lparr>series := ss\<rparr>"

definition render :: "chart \<Rightarrow> js_error + view" where
  "render c = AreaChart (series c) (hoverI c)"

datatype event = MouseMove "real option" real | MouseLeave | SeriesChange "series list"

fun chart_step :: "chart \<Rightarrow> event \<Rightarrow> chart" where
  "chart_step c (MouseMove svg clientX) = handleMove svg clientX c"
| "chart_step c MouseLeave = handleLeave c"
| "chart_step c (SeriesChange ss) = rerender ss c"

text \<open>A chart as mounted by a first render: \<^verbatim>\<open>useState(null)\<close>.\<close>

definition mount :: "series list \<Rightarrow> bool \<Rightarrow> chart" where
  "mount ss cb = \<lparr>series = ss, hoverI = None, observed = cb, notified = []\<rparr>"

section \<open>Accounts and transactions\<close>

text \<open>
  A text is the list of its UTF-16 code units; \<open>js_str\<close> writes one from ASCII
  characters.
\<close>

type_synonym js_string = "nat list"

definition js_str :: "string \<Rightarrow> js_string" where
  "js_str s = map of_char s"

record Transaction =
  t_id :: js_string
  date :: js_string
  description :: js_string
  category :: js_string
  amount :: double
  accountId :: js_string

datatype account_type = Brokerage | Checking | Savings | Credit

record Account =
  a_id :: js_string
  a_name :: js_string
  a_type :: account_type
  balance :: double

text \<open>The fields of the "Add Transaction" form, all text.\<close>

record newTx_form =
  desc :: js_string
  f_category :: js_string
  f_amount :: js_string
  f_accountId :: js_string

record app =
  accounts :: "Account list"
  transactions :: "Transaction list"
  showTxModal :: bool
  newTx :: newTx_form

text \<open>
  \<^verbatim>\<open>String.prototype.trim\<close> removes the white space and the line terminators of
  ECMAScript from both ends: U+0009 to U+000D, U+0020, U+00A0, U+1680, U+2000 to U+200A,
  U+2028, U+2029, U+202F, U+205F, U+3000 and U+FEFF.
\<close>

definition is_space :: "nat \<Rightarrow> bool" where
  "is_space c =
     (c \<in> set [0x09, 0x0A, 0x0B, 0x0C, 0x0D, 0x20, 0xA0, 0x1680, 0x2028, 0x2029, 0x202F,
               0x205F, 0x3000, 0xFEFF] \<or>
      (0x2000 \<le> c \<and> c \<le> 0x200A))"

definition trim :: "js_string \<Rightarrow> js_string" where
  "trim s = rev (dropWhile is_space (rev (dropWhile is_space s)))"

text \<open>
  \<^verbatim>\<open>addTransaction()\<close>. Three values come from the environment: \<open>Number\<close> converts the
  text of the amount field to a number, \<open>uuid\<close> is the result of
  \<^verbatim>\<open>crypto.randomUUID()\<close> and \<open>today\<close> that of \<^verbatim>\<open>todayISO()\<close>.
\<close>

definition addTransaction :: "(js_string \<Rightarrow> double) \<Rightarrow> js_string \<Rightarrow> js_string \<Rightarrow> app \<Rightarrow> app" where
  "addTransaction Number uuid today st =
     (let amt = Number (f_amount (newTx st))
      in if trim (desc (newTx st)) = [] \<or> amt = NotANumber then st
         else
           (let tx = \<lparr>t_id = uuid,
                      date = today,
                      description = trim (desc (newTx st)),
                      category = (if trim (f_category (newTx st)) = [] then js_str ''General''
                                  else trim (f_category (newTx st))),
                      amount = amt,
                      accountId = f_accountId (newTx st)\<rparr>
            in st\<lparr>transactions := tx # transactions st,
                  accounts := map (\<lambda>a. if a_id a = f_accountId (newTx st)
                                        then a\<lparr>balance := balance a + amt\<rparr> else a)
                               (accounts st),
                  showTxModal := False,
                  newTx := \<lparr>desc = [], f_category = [], f_amount = [],
                            f_accountId = js_str ''acc1''\<rparr>\<rparr>))"

text \<open>
  \<^verbatim>\<open>deleteTransaction(id)\<close>: the updater of the transaction list looks the transaction
  up, reverses its amount on its account and filters the list. Each updater runs once.
\<close>

definition deleteTransaction :: "js_string \<Rightarrow> app \<Rightarrow> app" where
  "deleteTransaction i st =
     (case find (\<lambda>t. t_id t = i) (transactions st) of
        None \<Rightarrow> st
      | Some tx \<Rightarrow>
          st\<lparr>accounts := map (\<lambda>a. if a_id a = accountId tx
                                   then a\<lparr>balance := balance a - amount tx\<rparr> else a)
                          (accounts st),
              transactions := filter (\<lambda>t. t_id t \<noteq> i) (transactions st)\<rparr>)"

section \<open>Inputs of the examples\<close>

text \<open>Two series of three points.\<close>

definition demo_series :: "series list" where
  "demo_series =
     [\<lparr>s_name = ''Conservative'', color = ''#7c7cff'',
        points = [\<lparr>year = 2025, val = 100\<rparr>, \<lparr>year = 2026, val = 104\<rparr>, \<lparr>year = 2027, val = 108\<rparr>]\<rparr>,
      \<lparr>s_name = ''Aggressive'', color = ''#d17bff'',
        points = [\<lparr>year = 2025, val = 100\<rparr>, \<lparr>year = 2026, val = 109\<rparr>, \<lparr>year = 2027, val = 200\<rparr>]\<rparr>]"

text \<open>A series list whose second series is shorter than the first.\<close>

definition ragged_series :: "series list" where
  "ragged_series =
     [\<lparr>s_name = ''A'', color = ''#7c7cff'',
        points = [\<lparr>year = 2025, val = 1\<rparr>, \<lparr>year = 2026, val = 2\<rparr>]\<rparr>,
      \<lparr>s_name = ''B'', color = ''#d17bff'', points = [\<lparr>year = 2025, val = 1\<rparr>]\<rparr>]"

text \<open>One series of a single point.\<close>

definition single_series :: "series list" where
  "single_series = [\<lparr>s_name = ''A'', color = ''#7c7cff'', points = [\<lparr>year = 2025, val = 100\<rparr>]\<rparr>]"

text \<open>A mounted chart after a pointer move to the middle of the surface.\<close>

definition demo_hovering :: chart where
  "demo_hovering = handleMove (Some 0) 450 (mount demo_series True)"

text \<open>A series list without any point, and one whose only value is \<open>31 * 2\<^sup>1\<^sup>0\<^sup>1\<^sup>9\<close>.\<close>

definition empty_series :: "series list" where
  "empty_series = [\<lparr>s_name = ''A'', color = ''#7c7cff'', points = []\<rparr>]"

definition large_series :: "series list" where
  "large_series =
     [\<lparr>s_name = ''A'', color = ''#7c7cff'', points = [\<lparr>year = 2025, val = 31 * 2 ^ 1019\<rparr>]\<rparr>]"



text \<open>
  The initial state of the application with the form filled in; the description
  begins with a no-break space.
\<close>

definition demo_app :: app where
  "demo_app =
     \<lparr>accounts =
        [\<lparr>a_id = js_str ''acc1'', a_name = js_str ''Robinhood'', a_type = Brokerage,
           balance = Finite 10000\<rparr>,
         \<lparr>a_id = js_str ''acc2'', a_name = js_str ''Chase'', a_type = Checking,
           balance = Finite 5000\<rparr>],
      transactions =
        [\<lparr>t_id = js_str ''t1'', date = js_str ''2025-01-01'',
           description = js_str ''Initial Balance'', category = js_str ''Setup'',
           amount = Finite 10000, accountId = js_str ''acc1''\<rparr>,
         \<lparr>t_id = js_str ''t2'', date = js_str ''2025-01-01'',
           description = js_str ''Initial Balance'', category = js_str ''Setup'',
           amount = Finite 5000, accountId = js_str ''acc2''\<rparr>],
      showTxModal = True,
      newTx = \<lparr>desc = 0xA0 # js_str ''Rent '', f_category = [], f_amount = js_str ''-1200'',
                f_accountId = js_str ''acc2''\<rparr>\<rparr>"

text \<open>The same state with the amount \<^verbatim>\<open>3192.29\<close> in the form.\<close>

definition demo_app_cents :: app where
  "demo_app_cents = demo_app\<lparr>newTx := (newTx demo_app)\<lparr>f_amount := js_str ''3192.29''\<rparr>\<rparr>"

text \<open>
  \<^verbatim>\<open>Number\<close> on the texts that the examples use: \<^verbatim>\<open>3192.29\<close> converts to the double
  \<open>3509959974233047 / 2\<^sup>4\<^sup>0\<close>, the empty text to 0, any other text here to \<^verbatim>\<open>NaN\<close>.
\<close>

definition demo_Number :: "js_string \<Rightarrow> double" where
  "demo_Number s =
     (if s = js_str ''-1200'' then Finite (- 1200)
      else if s = js_str ''3192.29'' then Finite (3509959974233047 / 2 ^ 40)
      else if s = [] then Finite 0 else NotANumber)"

section \<open>Properties of rounding\<close>

lemma tiny_pos: "0 < tiny"
  by (simp add: tiny_def)

lemma huge_pos: "0 < huge"
  by (simp add: huge_def)

lemma tiny_1022: "2 ^ 1022 * tiny = 1 / 2 ^ 52"
proof -
  have n: "(1022::nat) + 52 = 1074" by simp
  have "(2::real) ^ 1074 = 2 ^ (1022 + 52)" by (simp only: n)
  also have "\<dots> = 2 ^ 1022 * 2 ^ 52" by (simp only: power_add)
  finally have d: "(2::real) ^ 1074 = 2 ^ 1022 * 2 ^ 52" .
  have "2 ^ 1022 * tiny = (2 ^ 1022 * 1) / (2 ^ 1022 * 2 ^ 52)"
    by (simp only: tiny_def d times_divide_eq_right)
  also have "\<dots> = 1 / 2 ^ 52"
    by (rule nonzero_mult_divide_mult_cancel_left) simp
  finally show ?thesis .
qed

lemma ulp_up_spec:
  "1 \<le> a \<Longrightarrow> \<exists>j::nat. ulp_up a u = u * 2 ^ j \<and> 2 ^ j \<le> a \<and> a < 2 ^ (j + 1)"
proof (induction a u rule: ulp_up.induct)
  case (1 a u)
  show ?case
  proof (cases "a < 2")
    case True
    then have "ulp_up a u = u * 2 ^ 0 \<and> 2 ^ 0 \<le> a \<and> a < 2 ^ (0 + 1)"
      using "1.prems" by (simp add: ulp_up.simps)
    then show ?thesis by blast
  next
    case False
    then have "1 \<le> a / 2" by simp
    from "1.IH"[OF False this] obtain j :: nat where
      j: "ulp_up (a / 2) (2 * u) = 2 * u * 2 ^ j" "2 ^ j \<le> a / 2" "a / 2 < 2 ^ (j + 1)"
      by blast
    have "ulp_up a u = ulp_up (a / 2) (2 * u)" using False by (simp add: ulp_up.simps)
    then have "ulp_up a u = u * 2 ^ (Suc j) \<and> 2 ^ (Suc j) \<le> a \<and> a < 2 ^ (Suc j + 1)"
      using j by simp
    then show ?thesis by blast
  qed
qed

lemma ulp_down_spec:
  "a < 2 \<Longrightarrow> k \<le> 1022 \<Longrightarrow>
   \<exists>j::nat. k + j \<le> 1022 \<and> ulp_down k a u = u / 2 ^ j \<and> a * 2 ^ j < 2 \<and>
     (k + j < 1022 \<longrightarrow> 1 \<le> a * 2 ^ j)"
proof (induction k a u rule: ulp_down.induct)
  case (1 k a u)
  show ?case
  proof (cases "1 \<le> a \<or> 1022 \<le> k")
    case True
    then have "k + 0 \<le> 1022 \<and> ulp_down k a u = u / 2 ^ 0 \<and> a * 2 ^ 0 < 2 \<and>
        (k + 0 < 1022 \<longrightarrow> 1 \<le> a * 2 ^ 0)"
      using "1.prems" by (auto simp add: ulp_down.simps)
    then show ?thesis by blast
  next
    case False
    then have a: "2 * a < 2" and k: "Suc k \<le> 1022" by simp_all
    from "1.IH"[OF False a k] obtain j :: nat where
      j: "Suc k + j \<le> 1022" "ulp_down (Suc k) (2 * a) (u / 2) = u / 2 / 2 ^ j"
         "2 * a * 2 ^ j < 2" "Suc k + j < 1022 \<longrightarrow> 1 \<le> 2 * a * 2 ^ j"
      by blast
    have eq: "2 * a * 2 ^ j = a * 2 ^ (Suc j)" by simp
    have "ulp_down k a u = ulp_down (Suc k) (2 * a) (u / 2)"
      using False by (simp add: ulp_down.simps)
    then have "k + Suc j \<le> 1022 \<and> ulp_down k a u = u / 2 ^ (Suc j) \<and> a * 2 ^ (Suc j) < 2 \<and>
        (k + Suc j < 1022 \<longrightarrow> 1 \<le> a * 2 ^ (Suc j))"
      using j(1,2) j(3,4)[unfolded eq] by simp
    then show ?thesis by blast
  qed
qed

lemma is_ulp_up:
  fixes a :: real and j :: nat
  assumes "2 ^ j \<le> a" and "a < 2 ^ (j + 1)"
  shows "is_ulp a (2 ^ j / 2 ^ 52)"
proof -
  have "(2::real) ^ (j + 1022) * tiny = 2 ^ j * (2 ^ 1022 * tiny)"
    by (simp only: power_add mult.assoc)
  also have "\<dots> = 2 ^ j / 2 ^ 52" by (simp only: tiny_1022 times_divide_eq_right mult_1_right)
  finally have c1: "(2::real) ^ j / 2 ^ 52 = 2 ^ (j + 1022) * tiny" by (rule sym)
  have "(2::real) ^ j / 2 ^ 52 * 2 ^ 53 = 2 ^ (j + 1)" by simp
  then have c2: "a < 2 ^ j / 2 ^ 52 * 2 ^ 53" using assms(2) by (simp only:)
  have "(2::real) ^ j / 2 ^ 52 * 2 ^ 52 = 2 ^ j" by simp
  then have "2 ^ j / 2 ^ 52 * 2 ^ 52 \<le> a" using assms(1) by (simp only:)
  then have c3: "0 < j + 1022 \<longrightarrow> 2 ^ j / 2 ^ 52 * 2 ^ 52 \<le> a" by (rule impI)
  show ?thesis unfolding is_ulp_def
  proof (intro exI conjI)
    show "(2::real) ^ j / 2 ^ 52 = 2 ^ (j + 1022) * tiny" by (rule c1)
    show "a < 2 ^ j / 2 ^ 52 * 2 ^ 53" by (rule c2)
    show "0 < j + 1022 \<longrightarrow> 2 ^ j / 2 ^ 52 * 2 ^ 52 \<le> a" by (rule c3)
  qed
qed

lemma is_ulp_down:
  fixes a :: real and j :: nat
  assumes "j \<le> 1022" and "a * 2 ^ j < 2" and "j < 1022 \<longrightarrow> 1 \<le> a * 2 ^ j"
  shows "is_ulp a (1 / 2 ^ 52 / 2 ^ j)"
proof -
  have n: "(1022 - j) + j = 1022" using assms(1) by simp
  have "(2::real) ^ 1022 = 2 ^ ((1022 - j) + j)" by (simp only: n)
  also have "\<dots> = 2 ^ (1022 - j) * 2 ^ j" by (simp only: power_add)
  finally have d: "(2::real) ^ 1022 = 2 ^ (1022 - j) * 2 ^ j" .
  have "1 / 2 ^ 52 / 2 ^ j = 2 ^ 1022 * tiny / 2 ^ j" by (simp only: tiny_1022)
  also have "\<dots> = (2 ^ (1022 - j) * tiny) * 2 ^ j / 2 ^ j"
    by (simp only: d mult.assoc mult.commute mult.left_commute)
  also have "\<dots> = 2 ^ (1022 - j) * tiny" by simp
  finally have c1: "1 / 2 ^ 52 / 2 ^ j = 2 ^ (1022 - j) * tiny" .
  have "a < 2 / 2 ^ j" using assms(2) by (simp add: pos_less_divide_eq)
  moreover have "(1::real) / 2 ^ 52 / 2 ^ j * 2 ^ 53 = 2 / 2 ^ j" by simp
  ultimately have c2: "a < 1 / 2 ^ 52 / 2 ^ j * 2 ^ 53" by (simp only:)
  have c3: "0 < 1022 - j \<longrightarrow> 1 / 2 ^ 52 / 2 ^ j * 2 ^ 52 \<le> a"
  proof
    assume "0 < 1022 - j"
    then have "1 \<le> a * 2 ^ j" using assms(3) by simp
    then have "1 / 2 ^ j \<le> a" by (simp add: pos_divide_le_eq)
    moreover have "(1::real) / 2 ^ 52 / 2 ^ j * 2 ^ 52 = 1 / 2 ^ j" by simp
    ultimately show "1 / 2 ^ 52 / 2 ^ j * 2 ^ 52 \<le> a" by (simp only:)
  qed
  show ?thesis unfolding is_ulp_def
  proof (intro exI conjI)
    show "1 / 2 ^ 52 / 2 ^ j = 2 ^ (1022 - j) * tiny" by (rule c1)
    show "a < 1 / 2 ^ 52 / 2 ^ j * 2 ^ 53" by (rule c2)
    show "0 < 1022 - j \<longrightarrow> 1 / 2 ^ 52 / 2 ^ j * 2 ^ 52 \<le> a" by (rule c3)
  qed
qed

lemma is_ulp_ulp: "is_ulp a (ulp a)"
proof (cases "1 \<le> a")
  case True
  from ulp_up_spec[OF True, of "1 / 2 ^ 52"] obtain j :: nat where
    j: "ulp_up a (1 / 2 ^ 52) = 1 / 2 ^ 52 * 2 ^ j" "2 ^ j \<le> a" "a < 2 ^ (j + 1)"
    by blast
  have "ulp a = ulp_up a (1 / 2 ^ 52)" using True by (simp only: ulp_def if_True)
  then have u: "ulp a = 2 ^ j / 2 ^ 52" by (simp only: j(1) times_divide_eq_left mult_1)
  show ?thesis unfolding u by (rule is_ulp_up[OF j(2,3)])
next
  case False
  then have a2: "a < 2" by simp
  have k0: "(0::nat) \<le> 1022" by simp
  from ulp_down_spec[OF a2 k0, of "1 / 2 ^ 52"] obtain j :: nat where
    j: "0 + j \<le> 1022" "ulp_down 0 a (1 / 2 ^ 52) = 1 / 2 ^ 52 / 2 ^ j" "a * 2 ^ j < 2"
       "0 + j < 1022 \<longrightarrow> 1 \<le> a * 2 ^ j"
    by blast
  have jl: "j \<le> 1022" and j4: "j < 1022 \<longrightarrow> 1 \<le> a * 2 ^ j" using j(1,4) by simp_all
  have "ulp a = ulp_down 0 a (1 / 2 ^ 52)" using False by (simp only: ulp_def if_False)
  then have u: "ulp a = 1 / 2 ^ 52 / 2 ^ j" by (simp only: j(2))
  show ?thesis unfolding u by (rule is_ulp_down[OF jl j(3) j4])
qed

lemma is_ulp_unique:
  assumes "is_ulp a u" and "is_ulp a u'"
  shows "u = u'"
proof -
  have aux: "n' \<le> n"
    if "v = 2 ^ n * tiny" "a < v * 2 ^ 53" "v' = 2 ^ n' * tiny" "0 < n' \<longrightarrow> v' * 2 ^ 52 \<le> a"
    for v v' :: real and n n' :: nat
  proof (rule ccontr)
    assume "\<not> n' \<le> n"
    then have lt: "Suc n \<le> n'" by simp
    then have le: "v' * 2 ^ 52 \<le> a" using that(4) by simp
    have "(2::real) ^ Suc n \<le> 2 ^ n'" using lt by (rule power_increasing) simp
    then have "2 ^ Suc n * tiny \<le> 2 ^ n' * tiny"
      using tiny_pos by (intro mult_right_mono) simp_all
    then have "2 * v \<le> v'" unfolding that(1,3) by (simp only: power_Suc mult.assoc)
    then have "v * 2 ^ 53 \<le> v' * 2 ^ 52" by simp
    with le that(2) show False by simp
  qed
  from assms(1) obtain n :: nat where
    n: "u = 2 ^ n * tiny" "a < u * 2 ^ 53" "0 < n \<longrightarrow> u * 2 ^ 52 \<le> a"
    unfolding is_ulp_def by (elim exE conjE)
  from assms(2) obtain n' :: nat where
    n': "u' = 2 ^ n' * tiny" "a < u' * 2 ^ 53" "0 < n' \<longrightarrow> u' * 2 ^ 52 \<le> a"
    unfolding is_ulp_def by (elim exE conjE)
  have "n' \<le> n" using aux[OF n(1,2) n'(1,3)] .
  moreover have "n \<le> n'" using aux[OF n'(1,2) n(1,3)] .
  ultimately have "n = n'" by simp
  then show ?thesis by (simp only: n(1) n'(1))
qed

lemma ulp_eqI: "is_ulp a u \<Longrightarrow> ulp a = u"
  by (rule is_ulp_unique[OF is_ulp_ulp])

lemma is_ulp_pos: "is_ulp a u \<Longrightarrow> 0 < u"
  unfolding is_ulp_def using tiny_pos by (elim exE conjE) simp

lemma ulp_pos: "0 < ulp a"
  by (rule is_ulp_pos[OF is_ulp_ulp])

lemma rne_int: "rne (of_int n) = n"
  by (simp add: rne_def)

lemma rne_cases: "rne q = \<lfloor>q\<rfloor> \<or> rne q = \<lfloor>q\<rfloor> + 1"
  by (simp add: rne_def Let_def)

lemma rne_mono:
  assumes "q \<le> q'"
  shows "rne q \<le> rne q'"
proof (cases "\<lfloor>q\<rfloor> = \<lfloor>q'\<rfloor>")
  case True
  then have "q - of_int \<lfloor>q\<rfloor> \<le> q' - of_int \<lfloor>q'\<rfloor>" using assms by simp
  then show ?thesis using True by (auto simp add: rne_def Let_def)
next
  case False
  have "\<lfloor>q\<rfloor> \<le> \<lfloor>q'\<rfloor>" using assms by (rule floor_mono)
  with False have lt: "\<lfloor>q\<rfloor> + 1 \<le> \<lfloor>q'\<rfloor>" by simp
  have up: "rne q \<le> \<lfloor>q\<rfloor> + 1" using rne_cases[of q] by auto
  have "\<lfloor>q'\<rfloor> \<le> rne q'" using rne_cases[of q'] by auto
  with lt up show ?thesis by linarith
qed

lemma rne_numeral: "rne (numeral k) = numeral k" "rne (- numeral k) = - numeral k" "rne 0 = 0"
  by (simp_all add: rne_def)

lemma rne_upper: "q \<le> 2 ^ 53 \<Longrightarrow> rne q \<le> 2 ^ 53"
  using rne_mono[of q "2 ^ 53"] by (simp add: rne_numeral)

lemma rne_lower: "2 ^ 52 \<le> q \<Longrightarrow> 2 ^ 52 \<le> rne q"
  using rne_mono[of "2 ^ 52" q] by (simp add: rne_numeral)

lemma rne_upper_neg: "q \<le> - (2 ^ 52) \<Longrightarrow> rne q \<le> - (2 ^ 52)"
  using rne_mono[of q "- (2 ^ 52)"] by (simp add: rne_numeral)

lemma rne_lower_neg: "- (2 ^ 53) \<le> q \<Longrightarrow> - (2 ^ 53) \<le> rne q"
  using rne_mono[of "- (2 ^ 53)" q] by (simp add: rne_numeral)

lemma rne_nonneg: "0 \<le> q \<Longrightarrow> 0 \<le> rne q"
  using rne_mono[of 0 q] by (simp add: rne_numeral)

text \<open>The quotient that is rounded: below \<open>2\<^sup>5\<^sup>3\<close> in size, and at least \<open>2\<^sup>5\<^sup>2\<close> in the normal range.\<close>

lemma quotient_bounds:
  assumes u: "u = 2 ^ n * tiny" and lt: "\<bar>x\<bar> < u * 2 ^ 53" and ge: "0 < n \<longrightarrow> u * 2 ^ 52 \<le> \<bar>x\<bar>"
  shows "\<bar>rne (x / u)\<bar> \<le> 2 ^ 53" and "0 < n \<longrightarrow> 2 ^ 52 \<le> \<bar>rne (x / u)\<bar>"
proof -
  have up: "0 < u" unfolding u using tiny_pos by simp
  have q: "\<bar>x / u\<bar> < 2 ^ 53" using lt up by (simp add: pos_divide_less_eq)
  then have q1: "x / u \<le> 2 ^ 53" and q2: "- (2 ^ 53) \<le> x / u" by linarith+
  have "rne (x / u) \<le> 2 ^ 53" "- (2 ^ 53) \<le> rne (x / u)"
    using rne_upper[OF q1] rne_lower_neg[OF q2] by simp_all
  then show "\<bar>rne (x / u)\<bar> \<le> 2 ^ 53" by linarith
  show "0 < n \<longrightarrow> 2 ^ 52 \<le> \<bar>rne (x / u)\<bar>"
  proof
    assume "0 < n"
    then have "u * 2 ^ 52 \<le> \<bar>x\<bar>" using ge by simp
    then have "2 ^ 52 \<le> \<bar>x / u\<bar>" using up by (simp add: pos_le_divide_eq mult.commute)
    then consider "2 ^ 52 \<le> x / u" | "x / u \<le> - (2 ^ 52)" by linarith
    then show "2 ^ 52 \<le> \<bar>rne (x / u)\<bar>"
    proof cases
      case 1
      then have "2 ^ 52 \<le> rne (x / u)" by (rule rne_lower)
      then show ?thesis by linarith
    next
      case 2
      then have "rne (x / u) \<le> - (2 ^ 52)" by (rule rne_upper_neg)
      then show ?thesis by linarith
    qed
  qed
qed

lemma rnd_val_zero: "rnd_val 0 = 0"
  by (simp add: rnd_val_def rne_numeral)

text \<open>A multiple \<open>m * u\<close> of a unit \<open>u\<close> with \<open>|m| \<le> 2\<^sup>5\<^sup>3\<close> (and \<open>|m| \<ge> 2\<^sup>5\<^sup>2\<close> in the normal range) is a double.\<close>

lemma rnd_val_multiple:
  fixes m :: int
  assumes u: "u = 2 ^ n * tiny" and le: "\<bar>m\<bar> \<le> 2 ^ 53" and ge: "0 < n \<longrightarrow> 2 ^ 52 \<le> \<bar>m\<bar>"
  shows "rnd_val (of_int m * u) = of_int m * u"
proof -
  have up: "0 < u" unfolding u using tiny_pos by simp
  define r where "r = of_int m * u"
  have absr: "\<bar>r\<bar> = of_int \<bar>m\<bar> * u" using up by (simp add: r_def abs_mult)
  show ?thesis
  proof (cases "\<bar>m\<bar> = 2 ^ 53")
    case True
    have u2: "2 * u = 2 ^ Suc n * tiny" unfolding u by simp
    have a: "\<bar>r\<bar> = 2 ^ 53 * u" using absr True by simp
    have "is_ulp \<bar>r\<bar> (2 * u)" unfolding is_ulp_def
    proof (intro exI conjI)
      show "2 * u = 2 ^ Suc n * tiny" by (rule u2)
      show "\<bar>r\<bar> < 2 * u * 2 ^ 53" unfolding a using up by simp
      show "0 < Suc n \<longrightarrow> 2 * u * 2 ^ 52 \<le> \<bar>r\<bar>" unfolding a by simp
    qed
    then have ul: "ulp \<bar>r\<bar> = 2 * u" by (rule ulp_eqI)
    have "2 dvd \<bar>m\<bar>" unfolding True by simp
    then have "even m" by (simp only: dvd_abs_iff)
    then obtain k where k: "m = 2 * k" by (elim evenE)
    have "r / (2 * u) = of_int k" using up by (simp add: r_def k)
    then have "rne (r / (2 * u)) = k" by (simp only: rne_int)
    then have "rnd_val r = of_int k * (2 * u)" by (simp only: rnd_val_def ul)
    also have "\<dots> = r" by (simp add: r_def k)
    finally show ?thesis unfolding r_def .
  next
    case False
    then have lt: "\<bar>m\<bar> < 2 ^ 53" using le by simp
    show ?thesis
    proof (cases "m = 0")
      case True
      then show ?thesis by (simp add: rnd_val_zero)
    next
      case nz: False
      have "is_ulp \<bar>r\<bar> u" unfolding is_ulp_def
      proof (intro exI conjI)
        show "u = 2 ^ n * tiny" by (rule u)
        have "(of_int \<bar>m\<bar> :: real) < 2 ^ 53" using lt by (metis of_int_less_iff of_int_numeral of_int_power)
        then show "\<bar>r\<bar> < u * 2 ^ 53" unfolding absr using up by (simp add: mult.commute)
        show "0 < n \<longrightarrow> u * 2 ^ 52 \<le> \<bar>r\<bar>"
        proof
          assume "0 < n"
          then have "2 ^ 52 \<le> \<bar>m\<bar>" using ge by simp
          then have "(2 ^ 52 :: real) \<le> of_int \<bar>m\<bar>"
            by (metis of_int_le_iff of_int_numeral of_int_power)
          then show "u * 2 ^ 52 \<le> \<bar>r\<bar>" unfolding absr using up by (simp add: mult.commute)
        qed
      qed
      then have ul: "ulp \<bar>r\<bar> = u" by (rule ulp_eqI)
      have "r / u = of_int m" using up by (simp add: r_def)
      then have "rne (r / u) = m" by (simp only: rne_int)
      then have "rnd_val r = of_int m * u" by (simp only: rnd_val_def ul)
      then show ?thesis unfolding r_def .
    qed
  qed
qed

lemma rnd_val_idem: "rnd_val (rnd_val x) = rnd_val x"
proof -
  from is_ulp_ulp[of "\<bar>x\<bar>"] obtain n :: nat where
    n: "ulp \<bar>x\<bar> = 2 ^ n * tiny" "\<bar>x\<bar> < ulp \<bar>x\<bar> * 2 ^ 53" "0 < n \<longrightarrow> ulp \<bar>x\<bar> * 2 ^ 52 \<le> \<bar>x\<bar>"
    unfolding is_ulp_def by (elim exE conjE)
  note b = quotient_bounds[OF n]
  show ?thesis unfolding rnd_val_def[of x] by (rule rnd_val_multiple[OF n(1) b])
qed

lemma rnd_val_nonneg:
  assumes "0 \<le> x"
  shows "0 \<le> rnd_val x"
proof -
  have "0 \<le> x / ulp \<bar>x\<bar>" using assms ulp_pos[of "\<bar>x\<bar>"] by simp
  then have "0 \<le> rne (x / ulp \<bar>x\<bar>)" by (rule rne_nonneg)
  then show ?thesis unfolding rnd_val_def using ulp_pos[of "\<bar>x\<bar>"] by simp
qed

lemma rnd_val_mono:
  assumes "0 \<le> x" and "x \<le> y"
  shows "rnd_val x \<le> rnd_val y"
proof -
  have ax: "\<bar>x\<bar> = x" and ay: "\<bar>y\<bar> = y" using assms by simp_all
  from is_ulp_ulp[of x] obtain n :: nat where
    n: "ulp x = 2 ^ n * tiny" "x < ulp x * 2 ^ 53" "0 < n \<longrightarrow> ulp x * 2 ^ 52 \<le> x"
    unfolding is_ulp_def by (elim exE conjE)
  from is_ulp_ulp[of y] obtain k :: nat where
    k: "ulp y = 2 ^ k * tiny" "y < ulp y * 2 ^ 53" "0 < k \<longrightarrow> ulp y * 2 ^ 52 \<le> y"
    unfolding is_ulp_def by (elim exE conjE)
  have px: "0 < ulp x" and py: "0 < ulp y" by (rule ulp_pos)+
  have step: "2 * (2 ^ i * tiny) \<le> 2 ^ j * tiny" if "i < j" for i j :: nat
  proof -
    have "(2::real) ^ Suc i \<le> 2 ^ j" using that by (intro power_increasing) simp_all
    then have "2 ^ Suc i * tiny \<le> 2 ^ j * tiny" using tiny_pos by (intro mult_right_mono) simp_all
    then show ?thesis by (simp only: power_Suc mult.assoc)
  qed
  consider "n = k" | "n < k" | "k < n" by linarith
  then show ?thesis
  proof cases
    case 1
    then have e: "ulp y = ulp x" by (simp only: n(1) k(1))
    have "x / ulp x \<le> y / ulp x" using assms(2) px by (simp add: divide_right_mono)
    then have "rne (x / ulp x) \<le> rne (y / ulp x)" by (rule rne_mono)
    then have "of_int (rne (x / ulp x)) * ulp x \<le> of_int (rne (y / ulp x)) * ulp x"
      using px by (simp add: mult_right_mono)
    then show ?thesis by (simp only: rnd_val_def ax ay e)
  next
    case 2
    have "x / ulp x \<le> 2 ^ 53" using n(2) px by (simp add: pos_divide_le_eq mult.commute)
    then have "rne (x / ulp x) \<le> 2 ^ 53" by (rule rne_upper)
    then have "(of_int (rne (x / ulp x)) :: real) \<le> 2 ^ 53"
      by (metis of_int_le_iff of_int_numeral of_int_power)
    then have "of_int (rne (x / ulp x)) * ulp x \<le> 2 ^ 53 * ulp x"
      using px by (simp add: mult_right_mono)
    then have a: "rnd_val x \<le> 2 ^ 53 * ulp x" by (simp only: rnd_val_def ax)
    have "2 * ulp x \<le> ulp y" unfolding n(1) k(1) using 2 by (rule step)
    then have b: "2 ^ 53 * ulp x \<le> 2 ^ 52 * ulp y" by simp
    have "0 < k" using 2 by simp
    then have "ulp y * 2 ^ 52 \<le> y" using k(3) by simp
    then have "2 ^ 52 \<le> y / ulp y" using py by (simp add: pos_le_divide_eq mult.commute)
    then have "2 ^ 52 \<le> rne (y / ulp y)" by (rule rne_lower)
    then have "(2 ^ 52 :: real) \<le> of_int (rne (y / ulp y))"
      by (metis of_int_le_iff of_int_numeral of_int_power)
    then have "2 ^ 52 * ulp y \<le> of_int (rne (y / ulp y)) * ulp y"
      using py by (simp add: mult_right_mono)
    then have c: "2 ^ 52 * ulp y \<le> rnd_val y" by (simp only: rnd_val_def ay)
    from a b c show ?thesis by linarith
  next
    case 3
    have "2 * ulp y \<le> ulp x" unfolding n(1) k(1) using 3 by (rule step)
    then have "ulp y * 2 ^ 53 \<le> ulp x * 2 ^ 52" by simp
    moreover have "ulp x * 2 ^ 52 \<le> x" using 3 n(3) by simp
    ultimately have "y < x" using k(2) by linarith
    with assms(2) show ?thesis by simp
  qed
qed

text \<open>Rounding as an operation on doubles: the facts that evaluate it, and its properties.\<close>

lemmas rnd_eval =
  rnd_def rnd_val_def classify_def huge_def ulp_def ulp_up.simps ulp_down.simps rne_def

lemma rnd_alt: "rnd x = classify (rnd_val x)"
  using huge_pos by (simp add: rnd_def rnd_val_zero classify_def)

lemma rnd_FiniteD: "rnd x = Finite y \<Longrightarrow> y = rnd_val x \<and> - huge < y \<and> y < huge"
  by (simp add: rnd_alt classify_def split: if_splits)

lemma rnd_idem: "rnd x = Finite y \<Longrightarrow> rnd y = Finite y"
proof -
  assume a: "rnd x = Finite y"
  then have y: "y = rnd_val x" by (simp add: rnd_FiniteD)
  have "rnd y = classify (rnd_val (rnd_val x))" unfolding y by (rule rnd_alt)
  also have "\<dots> = rnd x" by (simp only: rnd_val_idem rnd_alt)
  finally show ?thesis using a by simp
qed


lemma rnd_zero: "rnd 0 = Finite 0"
  by (simp add: rnd_def)

lemma rnd_consts:
  "rnd 1 = Finite 1" "rnd 30 = Finite 30" "rnd 60 = Finite 60" "rnd 260 = Finite 260"
  "rnd 290 = Finite 290"
  by (simp_all add: rnd_eval)

lemma huge_multiple: "huge = of_int (2 ^ 52) * (2 ^ 2046 * tiny)"
  by (simp add: huge_def tiny_def)

lemma rnd_val_huge: "rnd_val huge = huge"
  unfolding huge_multiple by (rule rnd_val_multiple[where n = 2046]) simp_all

lemma rnd_overflow:
  assumes "huge \<le> x"
  shows "rnd x = Infinity"
proof -
  have "rnd_val huge \<le> rnd_val x" using huge_pos assms by (intro rnd_val_mono) simp_all
  then have "huge \<le> rnd_val x" by (simp only: rnd_val_huge)
  then show ?thesis by (simp add: rnd_alt classify_def)
qed

section \<open>Properties of the projection\<close>

lemma projectGrowth_loop_unfold:
  "0 \<le> y \<Longrightarrow> v = (if y = 0 then start else proj_val start yearlyAdd rate (nat y - 1)) \<Longrightarrow>
   projectGrowth_loop currentYear yearlyAdd years rate y v pts =
     pts @ map (proj_pt currentYear start yearlyAdd rate) [nat y..<nat (years + 1)]"
proof (induction currentYear yearlyAdd years rate y v pts rule: projectGrowth_loop.induct)
  case (1 currentYear yearlyAdd years rate y v pts)
  show ?case
  proof (cases "y \<le> years")
    case False
    then show ?thesis by (subst projectGrowth_loop.simps) simp
  next
    case True
    define v' where "v' = (if 0 < y then (v + yearlyAdd) * (1 + rate) else v)"
    have v': "v' = proj_val start yearlyAdd rate (nat y)"
    proof (cases "y = 0")
      case True then show ?thesis using "1.prems" by (simp add: v'_def)
    next
      case False
      then have "nat y = Suc (nat y - 1)" using "1.prems" by simp
      then have "proj_val start yearlyAdd rate (nat y) = (proj_val start yearlyAdd rate (nat y - 1) + yearlyAdd) * (1 + rate)"
        by (metis proj_val.simps(2))
      then show ?thesis using False "1.prems" by (simp add: v'_def)
    qed
    have nxt: "v' = (if y + 1 = 0 then start else proj_val start yearlyAdd rate (nat (y + 1) - 1))"
      using "1.prems"(1) v' by (simp add: nat_add_distrib)
    have IH: "projectGrowth_loop currentYear yearlyAdd years rate (y + 1) v'
        (pts @ [\<lparr>year = currentYear + y, val = v'\<rparr>]) =
      (pts @ [\<lparr>year = currentYear + y, val = v'\<rparr>]) @
        map (proj_pt currentYear start yearlyAdd rate) [nat (y + 1)..<nat (years + 1)]"
      using "1.IH"[OF True v'_def _ nxt] "1.prems"(1) by simp
    have lt: "nat y < nat (years + 1)" and suc: "nat (y + 1) = Suc (nat y)"
      using True "1.prems"(1) by simp_all
    have upt: "[nat y..<nat (years + 1)] = nat y # [nat (y + 1)..<nat (years + 1)]"
      unfolding suc using lt by (rule upt_conv_Cons)
    have pt: "\<lparr>year = currentYear + y, val = v'\<rparr> = proj_pt currentYear start yearlyAdd rate (nat y)"
      using "1.prems"(1) v' by (simp add: proj_pt_def)
    have "projectGrowth_loop currentYear yearlyAdd years rate y v pts =
        projectGrowth_loop currentYear yearlyAdd years rate (y + 1) v'
        (pts @ [\<lparr>year = currentYear + y, val = v'\<rparr>])"
      using True by (subst projectGrowth_loop.simps) (simp add: v'_def Let_def)
    then show ?thesis using IH upt pt by simp
  qed
qed

lemma projectGrowth_closed:
  "projectGrowth currentYear start yearlyAdd years rate =
     map (proj_pt currentYear start yearlyAdd rate) [0..<nat (years + 1)]"
  unfolding projectGrowth_def
  using projectGrowth_loop_unfold[of 0 start start yearlyAdd rate currentYear years "[]"] by simp

lemma projectGrowth_length:
  "length (projectGrowth currentYear start yearlyAdd years rate) = nat (years + 1)"
  by (simp add: projectGrowth_closed)

lemma projectGrowth_nth:
  "k < nat (years + 1) \<Longrightarrow>
   projectGrowth currentYear start yearlyAdd years rate ! k =
     \<lparr>year = currentYear + int k, val = proj_val start yearlyAdd rate k\<rparr>"
  by (simp add: projectGrowth_closed proj_pt_def)

text \<open>
  C1. For an integer horizon \<open>years \<ge> 0\<close> the projection has \<open>years + 1\<close> points,
  indexed \<open>0..years\<close>. Point 0 has the start value and the current year. Every later
  point \<open>y\<close> has the value \<open>(value\<^sub>y\<^sub>-\<^sub>1 + yearlyAdd) * (1 + rate)\<close> and the year
  \<open>currentYear + y\<close>.
\<close>

theorem projectGrowth_points:
  assumes "0 \<le> years"
  shows "length (projectGrowth currentYear start yearlyAdd years rate) = nat years + 1 \<and>
    projectGrowth currentYear start yearlyAdd years rate ! 0 = \<lparr>year = currentYear, val = start\<rparr> \<and>
    (\<forall>y. 1 \<le> y \<and> y \<le> nat years \<longrightarrow>
       val (projectGrowth currentYear start yearlyAdd years rate ! y) =
         (val (projectGrowth currentYear start yearlyAdd years rate ! (y - 1)) + yearlyAdd) * (1 + rate) \<and>
       year (projectGrowth currentYear start yearlyAdd years rate ! y) = currentYear + int y)"
proof (intro conjI allI impI)
  show "length (projectGrowth currentYear start yearlyAdd years rate) = nat years + 1"
    using assms by (simp add: projectGrowth_length nat_add_distrib)
  show "projectGrowth currentYear start yearlyAdd years rate ! 0 = \<lparr>year = currentYear, val = start\<rparr>"
    using assms by (simp add: projectGrowth_nth)
next
  fix y :: nat
  assume y: "1 \<le> y \<and> y \<le> nat years"
  then have lt: "y < nat (years + 1)" "y - 1 < nat (years + 1)" and suc: "y = Suc (y - 1)"
    using assms by auto
  have "proj_val start yearlyAdd rate y = (proj_val start yearlyAdd rate (y - 1) + yearlyAdd) * (1 + rate)"
    by (subst suc) simp
  then show "val (projectGrowth currentYear start yearlyAdd years rate ! y) =
         (val (projectGrowth currentYear start yearlyAdd years rate ! (y - 1)) + yearlyAdd) * (1 + rate)"
    using lt by (simp add: projectGrowth_nth)
  show "year (projectGrowth currentYear start yearlyAdd years rate ! y) = currentYear + int y"
    using lt by (simp add: projectGrowth_nth)
qed

text \<open>The loop run on a horizon of two years.\<close>

lemma projectGrowth_example:
  "projectGrowth 2025 (1000::real) 100 2 (1 / 10) =
     [\<lparr>year = 2025, val = 1000\<rparr>, \<lparr>year = 2026, val = 1210\<rparr>, \<lparr>year = 2027, val = 1441\<rparr>]"
  by (simp add: projectGrowth_def)

theorem projectGrowth_points_witness:
  "(0::int) \<le> 2 \<and>
   length (projectGrowth 2025 (1000::real) 100 2 (1 / 10)) = 3 \<and>
   projectGrowth 2025 (1000::real) 100 2 (1 / 10) ! 0 = \<lparr>year = 2025, val = 1000\<rparr> \<and>
   val (projectGrowth 2025 (1000::real) 100 2 (1 / 10) ! 2) =
     (val (projectGrowth 2025 (1000::real) 100 2 (1 / 10) ! 1) + 100) * (1 + 1 / 10) \<and>
   year (projectGrowth 2025 (1000::real) 100 2 (1 / 10) ! 2) = 2027"
proof -
  have h: "(0::int) \<le> 2" by simp
  note t = projectGrowth_points [OF h, of 2025 "1000::real" 100 "1 / 10"]
  from t have "val (projectGrowth 2025 (1000::real) 100 2 (1 / 10) ! 2) =
     (val (projectGrowth 2025 (1000::real) 100 2 (1 / 10) ! (2 - 1)) + 100) * (1 + 1 / 10) \<and>
     year (projectGrowth 2025 (1000::real) 100 2 (1 / 10) ! 2) = 2025 + int 2"
    by simp
  with t h show ?thesis by simp
qed

subsection \<open>The projection in doubles\<close>








section \<open>Properties of the coordinate mapping and of the hover index\<close>

lemma x_coord_finite:
  "1 < n \<Longrightarrow> x_coord n i = Fin (svgP + real_of_int i / (real n - 1) * (svgW - 2 * svgP))"
  by (simp add: x_coord_def)

text \<open>
  C4. The claim asks for \<open>x(i) = P\<close> when there is a single point. The code divides by
  \<^verbatim>\<open>years.length - 1\<close> with no guard. A projection over a horizon of 0 periods is a
  series of one point, and for it \<open>x(0)\<close> is \<^verbatim>\<open>30 + (0/0)*840\<close>, which is \<^verbatim>\<open>NaN\<close> and
  not \<open>P\<close>.
\<close>

theorem x_coord_single_point:
  "length (projectGrowth currentYear start yearlyAdd 0 rate) = 1 \<and>
   x_coord (length (projectGrowth currentYear start yearlyAdd 0 rate)) 0 = NaN \<and>
   x_coord 1 0 \<noteq> Fin svgP"
  by (simp add: projectGrowth_length x_coord_def)

lemma x_coord_one_point_right: "0 < i \<Longrightarrow> x_coord 1 i = PInf"
  by (simp add: x_coord_def svgW_def svgP_def)

lemma hoverI_notify: "hoverI (notify i c) = hoverI c"
  by (simp add: notify_def)

lemma series_notify: "series (notify i c) = series c"
  by (simp add: notify_def)

lemma handleMove_hoverI:
  "series c = s0 # rest \<Longrightarrow>
   hoverI (handleMove (Some left) clientX c) =
     Some (Math_round ((max svgP (min (svgW - svgP) (clientX - left)) - svgP) /
                        (svgW - svgP - svgP) * (real (length (points s0)) - 1)))"
  by (simp add: handleMove_def Let_def hoverI_notify)

lemma Math_round_int: "Math_round (real_of_int k) = k"
  unfolding Math_round_def by linarith

lemma Math_round_bounds:
  assumes "0 \<le> r" "r \<le> real_of_int m"
  shows "0 \<le> Math_round r \<and> Math_round r \<le> m"
  unfolding Math_round_def using assms by (auto simp: floor_le_iff le_floor_iff)

lemma clamp_unit:
  "0 \<le> (max svgP (min (svgW - svgP) mx) - svgP) / (svgW - svgP - svgP) \<and>
   (max svgP (min (svgW - svgP) mx) - svgP) / (svgW - svgP - svgP) \<le> 1"
  by (simp add: svgW_def svgP_def)

lemma hover_index_bounds:
  assumes "1 \<le> n"
  shows "0 \<le> Math_round ((max svgP (min (svgW - svgP) mx) - svgP) / (svgW - svgP - svgP) * (real n - 1)) \<and>
    Math_round ((max svgP (min (svgW - svgP) mx) - svgP) / (svgW - svgP - svgP) * (real n - 1)) \<le> int n - 1"
proof -
  define t where "t = (max svgP (min (svgW - svgP) mx) - svgP) / (svgW - svgP - svgP)"
  have t: "0 \<le> t" "t \<le> 1" using clamp_unit[of mx] by (simp_all add: t_def)
  have n: "0 \<le> real n - 1" using assms by simp
  have lo: "0 \<le> t * (real n - 1)" using t n by simp
  have "t * (real n - 1) \<le> 1 * (real n - 1)" using t n by (intro mult_right_mono) simp_all
  then have hi: "t * (real n - 1) \<le> real_of_int (int n - 1)" by simp
  show ?thesis using Math_round_bounds[OF lo hi] by (simp add: t_def)
qed

lemma hover_index_roundtrip:
  assumes "1 < n" "0 \<le> k" "k \<le> int n - 1"
  shows "Math_round ((max svgP (min (svgW - svgP)
            (svgP + real_of_int k / (real n - 1) * (svgW - 2 * svgP))) - svgP) /
          (svgW - svgP - svgP) * (real n - 1)) = k"
proof -
  define u where "u = real_of_int k / (real n - 1)"
  have n: "0 < real n - 1" using assms(1) by simp
  have k: "0 \<le> real_of_int k" "real_of_int k \<le> real n - 1" using assms(2,3) by simp_all
  have u: "0 \<le> u" "u \<le> 1" using n k by (simp_all add: u_def)
  have "svgP + u * (svgW - 2 * svgP) = 30 + u * 840" by (simp add: svgW_def svgP_def)
  moreover have "max 30 (min 870 (30 + u * 840)) = 30 + u * 840" using u by simp
  ultimately have "(max svgP (min (svgW - svgP) (svgP + u * (svgW - 2 * svgP))) - svgP) /
          (svgW - svgP - svgP) = u"
    by (simp add: svgW_def svgP_def)
  moreover have "u * (real n - 1) = real_of_int k" using n by (simp add: u_def)
  ultimately show ?thesis by (simp add: u_def[symmetric] Math_round_int)
qed

section \<open>Properties of the value axis\<close>

lemma fold_max_Max: "fold max vs (v::real) = Max (set (v # vs))"
proof (induction vs arbitrary: v)
  case Nil
  show ?case by simp
next
  case (Cons a vs)
  have "fold max (a # vs) v = Max (set (max a v # vs))" by (simp add: Cons.IH)
  also have "\<dots> = Max (insert (max a v) (set vs))" by simp
  also have "\<dots> = Max (set (v # a # vs))"
  proof (cases "vs = []")
    case True then show ?thesis by (simp add: max.commute)
  next
    case False
    then have ne: "set vs \<noteq> {}" by simp
    have "Max (insert (max a v) (set vs)) = max (max a v) (Max (set vs))"
      using ne by simp
    also have "\<dots> = max v (max a (Max (set vs)))" by (simp add: max.assoc max.commute)
    also have "\<dots> = Max (set (v # a # vs))" using ne by simp
    finally show ?thesis .
  qed
  finally show ?case .
qed

lemma Math_max_nonempty: "vs \<noteq> [] \<Longrightarrow> Math_max vs = Finite (Max (set vs))"
  by (cases vs) (simp_all only: Math_max.simps fold_max_Max, simp)

lemma set_all_values: "set (all_values ss) = (\<Union>s\<in>set ss. val ` set (points s))"
  by (auto simp add: all_values_def)

text \<open>The maximum over all points of all series, when there is a point.\<close>

lemma Max_all_values:
  assumes "all_values ss \<noteq> []"
  shows "(\<exists>s\<in>set ss. \<exists>p\<in>set (points s). val p = Max (set (all_values ss))) \<and>
    (\<forall>s\<in>set ss. \<forall>p\<in>set (points s). val p \<le> Max (set (all_values ss)))"
proof -
  have ne: "set (all_values ss) \<noteq> {}" using assms by simp
  have "Max (set (all_values ss)) \<in> set (all_values ss)" using ne by (intro Max_in) simp_all
  then obtain s p where "s \<in> set ss" "p \<in> set (points s)" "val p = Max (set (all_values ss))"
    unfolding set_all_values by auto
  then have ex: "\<exists>s\<in>set ss. \<exists>p\<in>set (points s). val p = Max (set (all_values ss))"
    by blast
  have "val p \<le> Max (set (all_values ss))" if "s \<in> set ss" "p \<in> set (points s)" for s p
  proof -
    have "val p \<in> set (all_values ss)" unfolding set_all_values using that by blast
    then show ?thesis by (intro Max_ge) simp_all
  qed
  with ex show ?thesis by blast
qed

lemma max_domain_no_points: "all_values ss = [] \<Longrightarrow> max_domain ss = NegInfinity"
  by (simp add: max_domain_def lit_1_05_def js_or_def)

lemma max_domain_points:
  "all_values ss \<noteq> [] \<Longrightarrow>
   max_domain ss = js_or (Finite (Max (set (all_values ss))) * lit_1_05) (Finite 1)"
  by (simp add: max_domain_def Math_max_nonempty)

lemma max_domain_finite:
  assumes "max_domain ss = Finite m"
  shows "all_values ss \<noteq> []" and "rnd m = Finite m" and "m \<noteq> 0"
proof -
  show ne: "all_values ss \<noteq> []" using assms max_domain_no_points[of ss] by auto
  define d where "d = rnd (Max (set (all_values ss)) * (4728779608739021 / 2 ^ 52))"
  have md: "max_domain ss = js_or d (Finite 1)"
    unfolding d_def by (simp add: max_domain_points[OF ne] lit_1_05_def)
  show "rnd m = Finite m"
  proof (cases "d = Finite 0 \<or> d = NotANumber")
    case True
    then have "m = 1" using assms md by (simp add: js_or_def)
    then show ?thesis by (simp add: rnd_consts)
  next
    case False
    then have "d = Finite m" using assms md by (simp add: js_or_def)
    then show ?thesis unfolding d_def by (rule rnd_idem)
  qed
  show "m \<noteq> 0" using assms md by (auto simp add: js_or_def split: if_splits)
qed

lemma y_denominator_nonzero: "y_denominator mx \<noteq> Finite 0 \<and> y_denominator mx \<noteq> NotANumber"
  by (simp add: y_denominator_def js_or_def)

lemma y_coord_ends:
  assumes "rnd m = Finite m" and "m \<noteq> 0"
  shows "y_denominator (Finite m) = Finite m"
    and "y_coord (Finite m) (Finite min_domain) = Finite (svgH - svgP)"
    and "y_coord (Finite m) (Finite m) = Finite svgP"
  using assms
  by (simp_all add: y_coord_def y_denominator_def js_or_def min_domain_def svgH_def svgP_def
      minus_double_def rnd_zero rnd_consts)

text \<open>
  C7, as stated, fails. A series list that is not empty can be without any point: then
  \<^verbatim>\<open>max\<close> is \<^verbatim>\<open>-Infinity\<close>. And for the single finite value \<open>31 * 2\<^sup>1\<^sup>0\<^sup>1\<^sup>9\<close> the product
  with \<^verbatim>\<open>1.05\<close> overflows: then \<^verbatim>\<open>max\<close> is \<^verbatim>\<open>Infinity\<close>. In both \<^verbatim>\<open>y(max)\<close> is \<^verbatim>\<open>NaN\<close>, not
  \<^verbatim>\<open>P\<close>.
\<close>

theorem y_coord_undefined:
  "max_domain empty_series = NegInfinity \<and>
   y_coord (max_domain empty_series) (max_domain empty_series) = NotANumber \<and>
   max_domain large_series = Infinity \<and>
   y_coord (max_domain large_series) (max_domain large_series) = NotANumber"
proof -
  have e: "max_domain empty_series = NegInfinity"
    by (rule max_domain_no_points) (simp add: empty_series_def all_values_def)
  have "huge \<le> 31 * 2 ^ 1019 * (4728779608739021 / 2 ^ 52)" by (simp add: huge_def)
  then have "rnd (31 * 2 ^ 1019 * (4728779608739021 / 2 ^ 52)) = Infinity" by (rule rnd_overflow)
  then have l: "max_domain large_series = Infinity"
    by (simp add: max_domain_def large_series_def all_values_def lit_1_05_def js_or_def)
  have "y_coord NegInfinity NegInfinity = NotANumber" "y_coord Infinity Infinity = NotANumber"
    by (simp_all add: y_coord_def y_denominator_def js_or_def minus_double_def svgH_def svgP_def
        rnd_consts)
  then show ?thesis by (simp add: e l)
qed

text \<open>
  C7, amended. Whenever the computed \<^verbatim>\<open>max\<close> is finite, there is a point, the largest
  value \<open>M\<close> over the points of all series exists, \<^verbatim>\<open>max\<close> is \<^verbatim>\<open>M * 1.05 || 1\<close> in doubles,
  which is 1 when \<open>M\<close> is 0, and \<^verbatim>\<open>y(min)\<close> is \<^verbatim>\<open>H-P\<close> and \<^verbatim>\<open>y(max)\<close> is \<^verbatim>\<open>P\<close> exactly. The
  divisor of \<^verbatim>\<open>y\<close> is then \<^verbatim>\<open>max - min\<close>; it is 1 when \<^verbatim>\<open>max\<close> equals \<^verbatim>\<open>min\<close>, and for no
  \<^verbatim>\<open>max\<close> at all is it 0 or \<^verbatim>\<open>NaN\<close>.
\<close>

theorem y_coord_domain_ends:
  assumes "max_domain ss = Finite m"
  shows "(\<exists>M. (\<exists>s\<in>set ss. \<exists>p\<in>set (points s). val p = M) \<and>
            (\<forall>s\<in>set ss. \<forall>p\<in>set (points s). val p \<le> M) \<and>
            max_domain ss = js_or (Finite M * lit_1_05) (Finite 1) \<and>
            (M = 0 \<longrightarrow> max_domain ss = Finite 1)) \<and>
    y_coord (max_domain ss) (Finite min_domain) = Finite (svgH - svgP) \<and>
    y_coord (max_domain ss) (max_domain ss) = Finite svgP \<and>
    y_denominator (max_domain ss) = max_domain ss - Finite min_domain \<and>
    y_denominator (Finite min_domain) = Finite 1 \<and>
    y_denominator mx \<noteq> Finite 0 \<and> y_denominator mx \<noteq> NotANumber"
proof -
  note f = max_domain_finite[OF assms]
  have p: "max_domain ss = js_or (Finite (Max (set (all_values ss))) * lit_1_05) (Finite 1)"
    by (rule max_domain_points[OF f(1)])
  have z: "Max (set (all_values ss)) = 0 \<longrightarrow> max_domain ss = Finite 1"
    unfolding p by (simp add: lit_1_05_def js_or_def rnd_zero)
  have M: "\<exists>M. (\<exists>s\<in>set ss. \<exists>p\<in>set (points s). val p = M) \<and>
            (\<forall>s\<in>set ss. \<forall>p\<in>set (points s). val p \<le> M) \<and>
            max_domain ss = js_or (Finite M * lit_1_05) (Finite 1) \<and>
            (M = 0 \<longrightarrow> max_domain ss = Finite 1)"
    using Max_all_values[OF f(1)] p z by blast
  have sub: "Finite m - Finite min_domain = Finite m"
    using f(2) by (simp add: minus_double_def min_domain_def)
  have one: "y_denominator (Finite min_domain) = Finite 1"
    by (simp add: y_denominator_def js_or_def minus_double_def min_domain_def rnd_zero)
  show ?thesis
    unfolding assms
    using M[unfolded assms] y_coord_ends[OF f(2,3)] y_denominator_nonzero[of mx] sub one
    by simp
qed

theorem y_coord_domain_ends_witness:
  "max_domain demo_series = Finite 210 \<and>
   y_coord (max_domain demo_series) (Finite min_domain) = Finite 290 \<and>
   y_coord (max_domain demo_series) (max_domain demo_series) = Finite 30"
proof -
  have h: "max_domain demo_series = Finite 210"
    by (simp add: max_domain_def demo_series_def all_values_def lit_1_05_def js_or_def rnd_eval)
  note t = y_coord_domain_ends [OF h]
  have "y_coord (max_domain demo_series) (Finite min_domain) = Finite 290"
    using t [THEN conjunct2, THEN conjunct1] by (simp add: svgH_def svgP_def)
  moreover have "y_coord (max_domain demo_series) (max_domain demo_series) = Finite 30"
    using t [THEN conjunct2, THEN conjunct2, THEN conjunct1] by (simp add: svgP_def)
  ultimately show ?thesis using h by blast
qed

section \<open>Properties of a render\<close>

lemma js_error_TypeError: "(e::js_error) = TypeError"
  by (cases e) simp

lemma value_at_has_point: "has_point s i \<Longrightarrow> value_at (points s) i = Inr (val (points s ! nat i))"
  by (simp add: has_point_def value_at_def index_js_def)

lemma value_at_no_point: "\<not> has_point s i \<Longrightarrow> value_at (points s) i = Inl TypeError"
  by (auto simp add: has_point_def value_at_def index_js_def)

lemma map_err_all:
  "(\<forall>a\<in>set xs. f a = Inr (g a)) \<Longrightarrow> map_err f xs = Inr (map g xs)"
  by (induction xs) simp_all

lemma map_err_some:
  "\<exists>a\<in>set xs. f a = Inl TypeError \<Longrightarrow> map_err f xs = Inl TypeError"
proof (induction xs)
  case Nil
  then show ?case by simp
next
  case (Cons a xs)
  show ?case
  proof (cases "f a")
    case (Inl e)
    then show ?thesis by (simp add: js_error_TypeError[of e])
  next
    case (Inr b)
    then have "\<exists>a\<in>set xs. f a = Inl TypeError" using Cons.prems by auto
    then show ?thesis using Inr Cons.IH by simp
  qed
qed

lemma values_at_all:
  "\<forall>s\<in>set ss. has_point s i \<Longrightarrow>
   map_err (\<lambda>s. value_at (points s) i) ss = Inr (map (\<lambda>s. val (points s ! nat i)) ss)"
  by (rule map_err_all) (simp add: value_at_has_point)

lemma values_at_some:
  "\<exists>s\<in>set ss. \<not> has_point s i \<Longrightarrow> map_err (\<lambda>s. value_at (points s) i) ss = Inl TypeError"
  by (rule map_err_some) (meson value_at_no_point)

lemma zip_names: "zip (map s_name ss) (map g ss) = map (\<lambda>s. (s_name s, g s)) ss"
  by (induction ss) simp_all

lemma AreaChart_empty: "AreaChart [] hov = Inl TypeError"
  by (simp add: AreaChart_def)

lemma AreaChart_idle:
  assumes "\<forall>s\<in>set (s0 # rest). has_point s (int (length (points s0)) - 1)"
  shows "\<exists>v. AreaChart (s0 # rest) None = Inr v \<and> tooltip v = None \<and> guide v = None \<and> dots v = [] \<and>
     legend v = map (\<lambda>s. (s_name s, val (points s ! (length (points s0) - 1)))) (s0 # rest)"
proof -
  have "nat (int (length (points s0)) - 1) = length (points s0) - 1" by simp
  then show ?thesis
    using values_at_all[OF assms]
    by (simp add: AreaChart_def Let_def legendIndex_def zip_names del: map_err.simps)
qed

lemma AreaChart_hover:
  assumes "\<forall>s\<in>set (s0 # rest). has_point s i"
  shows "\<exists>v. AreaChart (s0 # rest) (Some i) = Inr v \<and>
     legend v = map (\<lambda>s. (s_name s, val (points s ! nat i))) (s0 # rest) \<and>
     tooltip v = Some (x_coord (length (points s0)) i / Fin svgW * Fin 100,
                       index_js (map year (points s0)) i,
                       map (\<lambda>s. (s_name s, val (points s ! nat i))) (s0 # rest)) \<and>
     guide v = Some (x_coord (length (points s0)) i) \<and>
     dots v = map (\<lambda>s. (x_coord (length (points s0)) i,
                          y_coord (max_domain (s0 # rest)) (Finite (val (points s ! nat i))))) (s0 # rest)"
  using values_at_all[OF assms]
  by (simp add: AreaChart_def Let_def legendIndex_def zip_names comp_def del: map_err.simps)

lemma AreaChart_no_point:
  assumes "\<exists>s\<in>set (s0 # rest). \<not> has_point s (legendIndex (length (points s0)) hov)"
  shows "AreaChart (s0 # rest) hov = Inl TypeError"
proof (cases hov)
  case None
  then show ?thesis
    using values_at_some[OF assms]
    by (simp add: AreaChart_def Let_def del: map_err.simps)
next
  case (Some i)
  then have "\<exists>s\<in>set (s0 # rest). \<not> has_point s i" using assms by (simp add: legendIndex_def)
  from values_at_some[OF this] show ?thesis
    using Some by (simp add: AreaChart_def Let_def del: map_err.simps)
qed

lemma AreaChart_points:
  assumes "\<forall>s\<in>set (s0 # rest). has_point s (legendIndex (length (points s0)) hov)"
  shows "\<exists>v. AreaChart (s0 # rest) hov = Inr v"
proof (cases hov)
  case None
  then show ?thesis using AreaChart_idle[of s0 rest] assms by (auto simp add: legendIndex_def)
next
  case (Some i)
  then show ?thesis using AreaChart_hover[of s0 rest i] assms by (auto simp add: legendIndex_def)
qed

text \<open>
  C2, amended. \<^verbatim>\<open>AreaChart\<close> validates nothing before it renders. A render ends with a
  \<^verbatim>\<open>TypeError\<close> exactly when the series list is empty or some series has no point at
  the index that the legend (and, when hovering, the dots and the tooltip) reads:
  \<^verbatim>\<open>hoverI ?? (N - 1)\<close>, with \<open>N\<close> the number of points of the first series. On every other
  input it returns the view; the length of the shortest series plays no part.
\<close>

theorem AreaChart_TypeError_iff:
  "(AreaChart ss hov = Inl TypeError) =
     (ss = [] \<or> (\<exists>s\<in>set ss. \<not> has_point s (legendIndex (length (points (hd ss))) hov))) \<and>
   (\<exists>v. AreaChart ss hov = Inr v) =
     (ss \<noteq> [] \<and> (\<forall>s\<in>set ss. has_point s (legendIndex (length (points (hd ss))) hov)))"
proof (cases ss)
  case Nil
  then show ?thesis by (simp add: AreaChart_empty)
next
  case (Cons s0 rest)
  show ?thesis
  proof (cases "\<forall>s\<in>set (s0 # rest). has_point s (legendIndex (length (points s0)) hov)")
    case True
    from AreaChart_points[OF True] show ?thesis using True Cons by auto
  next
    case False
    then have "\<exists>s\<in>set (s0 # rest). \<not> has_point s (legendIndex (length (points s0)) hov)"
      by blast
    from AreaChart_no_point[OF this] show ?thesis using False Cons by auto
  qed
qed

text \<open>
  C2, as stated, fails: nothing is validated before the render. An empty series list
  and a series list whose second series is shorter than the first both end the render
  with a \<^verbatim>\<open>TypeError\<close>.
\<close>

theorem AreaChart_throws:
  "AreaChart [] None = Inl TypeError \<and> AreaChart ragged_series None = Inl TypeError"
  by (simp add: AreaChart_def ragged_series_def Let_def legendIndex_def value_at_def index_js_def)

theorem AreaChart_TypeError_iff_witness:
  "demo_series \<noteq> [] \<and> legendIndex (length (points (hd demo_series))) None = 2 \<and>
   (\<exists>v. AreaChart demo_series None = Inr v)"
proof -
  have ne: "demo_series \<noteq> []" by (simp add: demo_series_def)
  have li: "legendIndex (length (points (hd demo_series))) None = 2"
    by (simp add: demo_series_def legendIndex_def)
  have "\<forall>s\<in>set demo_series. has_point s (legendIndex (length (points (hd demo_series))) None)"
    unfolding li by (simp add: demo_series_def has_point_def)
  with ne have "\<exists>v. AreaChart demo_series None = Inr v"
    using AreaChart_TypeError_iff [of demo_series None] by blast
  with ne li show ?thesis by blast
qed

lemma demo_hovering_eq:
  "demo_hovering = \<lparr>series = demo_series, hoverI = Some 1, observed = True, notified = [Some 1]\<rparr>"
  by (simp add: demo_hovering_def handleMove_def mount_def demo_series_def Let_def notify_def
      Math_round_def svgW_def svgP_def)

lemma handleLeave_hoverI: "hoverI (handleLeave c) = None"
  by (simp add: handleLeave_def hoverI_notify)

lemma handleLeave_series: "series (handleLeave c) = series c"
  by (simp add: handleLeave_def series_notify)

lemma handleLeave_notified:
  "notified (handleLeave c) = (if observed c then notified c @ [None] else notified c)"
  by (simp add: handleLeave_def notify_def)

text \<open>
  C6, as stated, fails for the tooltip: it is drawn under \<^verbatim>\<open>hoverI!==null\<close> only, so
  after a pointer leave there is none.
\<close>

theorem handleLeave_hides_tooltip:
  "hoverI (handleLeave demo_hovering) = None \<and>
   map_sum id tooltip (render (handleLeave demo_hovering)) = Inr None"
proof -
  have s: "series (handleLeave demo_hovering) = demo_series"
    by (simp add: handleLeave_series demo_hovering_eq)
  have "\<forall>s\<in>set demo_series. has_point s 2" by (simp add: demo_series_def has_point_def)
  then obtain v where "AreaChart demo_series None = Inr v" "tooltip v = None"
    using AreaChart_idle[of "hd demo_series" "tl demo_series"] by (auto simp add: demo_series_def)
  then show ?thesis by (simp add: render_def s handleLeave_hoverI)
qed

text \<open>
  C6, amended. A pointer leave always sets the hover index to none and, when the parent
  passed a callback, calls it with none. When each series has a point at \<open>N - 1\<close>, \<open>N\<close>
  the number of points of the first series, the render of the resulting idle state
  succeeds, its legend shows for each series its value at \<open>N - 1\<close> (the last point of a
  series of \<open>N\<close> points), and it has no tooltip.
\<close>

theorem handleLeave_resets:
  "hoverI (handleLeave c) = None \<and>
   notified (handleLeave c) = (if observed c then notified c @ [None] else notified c) \<and>
   (series c = s0 # rest \<and> (\<forall>s\<in>set (series c). has_point s (int (length (points s0)) - 1)) \<longrightarrow>
      (\<exists>v. render (handleLeave c) = Inr v \<and>
           legend v = map (\<lambda>s. (s_name s, val (points s ! (length (points s0) - 1)))) (series c) \<and>
           tooltip v = None) \<and>
      (\<forall>s\<in>set (series c). length (points s) = length (points s0) \<longrightarrow>
           points s ! (length (points s0) - 1) = last (points s)))"
proof (intro conjI impI)
  show "hoverI (handleLeave c) = None" by (rule handleLeave_hoverI)
  show "notified (handleLeave c) = (if observed c then notified c @ [None] else notified c)"
    by (rule handleLeave_notified)
next
  assume a: "series c = s0 # rest \<and> (\<forall>s\<in>set (series c). has_point s (int (length (points s0)) - 1))"
  then have "\<forall>s\<in>set (s0 # rest). has_point s (int (length (points s0)) - 1)" by simp
  from AreaChart_idle[OF this] a
  show "\<exists>v. render (handleLeave c) = Inr v \<and>
           legend v = map (\<lambda>s. (s_name s, val (points s ! (length (points s0) - 1)))) (series c) \<and>
           tooltip v = None"
    by (auto simp add: render_def handleLeave_series handleLeave_hoverI)
  show "\<forall>s\<in>set (series c). length (points s) = length (points s0) \<longrightarrow>
           points s ! (length (points s0) - 1) = last (points s)"
  proof (intro ballI impI)
    fix s assume s: "s \<in> set (series c)" and l: "length (points s) = length (points s0)"
    from a s have "has_point s (int (length (points s0)) - 1)" by blast
    then have "points s \<noteq> []" by (auto simp add: has_point_def)
    then show "points s ! (length (points s0) - 1) = last (points s)"
      using l by (simp add: last_conv_nth)
  qed
qed

theorem handleLeave_resets_witness:
  "series demo_hovering = hd demo_series # tl demo_series \<and>
   hoverI demo_hovering = Some 1 \<and>
   hoverI (handleLeave demo_hovering) = None \<and>
   notified (handleLeave demo_hovering) = [Some 1, None] \<and>
   map_sum id legend (render (handleLeave demo_hovering)) =
     Inr [(''Conservative'', 108), (''Aggressive'', 200)]"
proof -
  have s: "series demo_hovering = hd demo_series # tl demo_series"
    by (simp add: demo_hovering_eq demo_series_def)
  have p: "\<forall>s\<in>set (series demo_hovering). has_point s (int (length (points (hd demo_series))) - 1)"
    by (simp add: demo_hovering_eq demo_series_def has_point_def)
  note t = handleLeave_resets [of demo_hovering "hd demo_series" "tl demo_series"]
  from t s p obtain v where v: "render (handleLeave demo_hovering) = Inr v"
    "legend v = map (\<lambda>s. (s_name s, val (points s ! (length (points (hd demo_series)) - 1))))
       (series demo_hovering)"
    by blast
  have "legend v = [(''Conservative'', 108), (''Aggressive'', 200)]"
    unfolding v(2) by (simp add: demo_hovering_eq demo_series_def)
  moreover have "notified (handleLeave demo_hovering) = [Some 1, None]"
    using t by (simp add: demo_hovering_eq)
  moreover have "hoverI demo_hovering = Some 1" by (simp add: demo_hovering_eq)
  ultimately show ?thesis using s t v(1) by simp
qed

section \<open>Properties of the hover state\<close>

text \<open>
  C10. For every pointer move over a chart whose first series has \<open>N \<ge> 2\<close> points,
  the index that \<^verbatim>\<open>handleMove\<close> stores lies in \<open>0..N-1\<close>. Every series of \<open>N\<close> points
  has a point at that index, and when all series have \<open>N\<close> points the render that
  follows (dots, tooltip and legend) succeeds.
\<close>

theorem handleMove_index_in_bounds:
  assumes "series c = s0 # rest" and "2 \<le> length (points s0)"
  shows "\<exists>i. hoverI (handleMove (Some left) clientX c) = Some i \<and>
           0 \<le> i \<and> i \<le> int (length (points s0)) - 1 \<and>
           (\<forall>s. length (points s) = length (points s0) \<longrightarrow>
                 has_point s i \<and> value_at (points s) i = Inr (val (points s ! nat i))) \<and>
           ((\<forall>s\<in>set (series c). length (points s) = length (points s0)) \<longrightarrow>
                 (\<exists>v. render (handleMove (Some left) clientX c) = Inr v))"
proof -
  define i where "i = Math_round ((max svgP (min (svgW - svgP) (clientX - left)) - svgP) /
                        (svgW - svgP - svgP) * (real (length (points s0)) - 1))"
  have h: "hoverI (handleMove (Some left) clientX c) = Some i"
    unfolding i_def by (rule handleMove_hoverI[OF assms(1)])
  have b: "0 \<le> i \<and> i \<le> int (length (points s0)) - 1"
    unfolding i_def by (rule hover_index_bounds) (use assms(2) in simp)
  have p: "has_point s i" if "length (points s) = length (points s0)" for s
    using b that by (simp add: has_point_def)
  have r: "\<exists>v. render (handleMove (Some left) clientX c) = Inr v"
    if all: "\<forall>s\<in>set (series c). length (points s) = length (points s0)"
  proof -
    have s: "series (handleMove (Some left) clientX c) = s0 # rest"
      using assms(1) by (simp add: handleMove_def Let_def series_notify)
    have "\<forall>s\<in>set (s0 # rest). has_point s (legendIndex (length (points s0)) (Some i))"
      using all p assms(1) by (simp add: legendIndex_def)
    from AreaChart_points[OF this] show ?thesis by (simp add: render_def s h)
  qed
  show ?thesis
    using h b p r value_at_has_point by blast
qed

theorem handleMove_index_in_bounds_witness:
  "series (mount demo_series True) = hd demo_series # tl demo_series \<and>
   2 \<le> length (points (hd demo_series)) \<and>
   hoverI (handleMove (Some 12) 700 (mount demo_series True)) = Some 2 \<and>
   (\<exists>v. render (handleMove (Some 12) 700 (mount demo_series True)) = Inr v)"
proof -
  have s: "series (mount demo_series True) = hd demo_series # tl demo_series"
    by (simp add: mount_def demo_series_def)
  have n: "2 \<le> length (points (hd demo_series))" by (simp add: demo_series_def)
  have a: "\<forall>s\<in>set (series (mount demo_series True)).
      length (points s) = length (points (hd demo_series))"
    by (simp add: mount_def demo_series_def)
  have e: "hoverI (handleMove (Some 12) 700 (mount demo_series True)) = Some 2"
    by (simp add: handleMove_def mount_def demo_series_def Let_def notify_def Math_round_def
        svgW_def svgP_def)
  from handleMove_index_in_bounds [OF s n, of 12 700] a
  have "\<exists>v. render (handleMove (Some 12) 700 (mount demo_series True)) = Inr v" by blast
  with s n e show ?thesis by blast
qed

text \<open>
  C5. For \<open>N > 1\<close> points and an index \<open>k\<close> in \<open>0..N-1\<close>, \<open>x(k)\<close> is a finite number, and
  a pointer move at that distance from the left edge of the surface stores the hover
  index \<open>k\<close>.
\<close>

theorem hover_roundtrip:
  assumes "series c = s0 # rest" and "1 < length (points s0)"
    and "0 \<le> k" and "k \<le> int (length (points s0)) - 1"
  shows "\<exists>r. x_coord (length (points s0)) k = Fin r \<and>
           hoverI (handleMove (Some left) (left + r) c) = Some k"
proof -
  define r where "r = svgP + real_of_int k / (real (length (points s0)) - 1) * (svgW - 2 * svgP)"
  have x: "x_coord (length (points s0)) k = Fin r"
    unfolding r_def by (rule x_coord_finite[OF assms(2)])
  have "hoverI (handleMove (Some left) (left + r) c) = Some k"
    using hover_index_roundtrip[OF assms(2,3,4)]
    by (simp add: handleMove_hoverI[OF assms(1)] r_def)
  with x show ?thesis by blast
qed

theorem hover_roundtrip_witness:
  "series (mount demo_series True) = hd demo_series # tl demo_series \<and>
   1 < length (points (hd demo_series)) \<and> (0::int) \<le> 1 \<and>
   (1::int) \<le> int (length (points (hd demo_series))) - 1 \<and>
   x_coord (length (points (hd demo_series))) 1 = Fin 450 \<and>
   hoverI (handleMove (Some 100) (100 + 450) (mount demo_series True)) = Some 1"
proof -
  have s: "series (mount demo_series True) = hd demo_series # tl demo_series"
    by (simp add: mount_def demo_series_def)
  have n: "1 < length (points (hd demo_series))" by (simp add: demo_series_def)
  have k: "(0::int) \<le> 1" "(1::int) \<le> int (length (points (hd demo_series))) - 1"
    by (simp_all add: demo_series_def)
  have x: "x_coord (length (points (hd demo_series))) 1 = Fin 450"
    by (simp add: demo_series_def x_coord_def svgW_def svgP_def)
  from hover_roundtrip [OF s n k, of 100] obtain r where
    r: "x_coord (length (points (hd demo_series))) 1 = Fin r"
       "hoverI (handleMove (Some 100) (100 + r) (mount demo_series True)) = Some 1"
    by blast
  from r(1) x have "r = 450" by simp
  with r(2) s n k x show ?thesis by simp
qed

text \<open>
  C3, as stated, fails. A chart of three points is hovered at index 2 and then receives
  a series of one point: the hover index is still 2, and the render reads
  \<^verbatim>\<open>points[2].value\<close> of a series that has no such point.
\<close>

theorem series_change_keeps_stale_index:
  "hoverI (chart_step (mount demo_series True) (MouseMove (Some 0) 870)) = Some 2 \<and>
   hoverI (chart_step (chart_step (mount demo_series True) (MouseMove (Some 0) 870))
             (SeriesChange single_series)) = Some 2 \<and>
   render (chart_step (chart_step (mount demo_series True) (MouseMove (Some 0) 870))
             (SeriesChange single_series)) = Inl TypeError"
proof -
  have s: "series (mount demo_series True) = hd demo_series # tl demo_series"
    by (simp add: mount_def demo_series_def)
  have e: "hoverI (handleMove (Some 0) 870 (mount demo_series True)) = Some 2"
    by (simp add: handleMove_def mount_def demo_series_def Let_def notify_def Math_round_def
        svgW_def svgP_def)
  have "\<exists>s\<in>set (hd single_series # tl single_series).
          \<not> has_point s (legendIndex (length (points (hd single_series))) (Some 2))"
    by (simp add: single_series_def has_point_def legendIndex_def)
  from AreaChart_no_point[OF this]
  have "AreaChart single_series (Some 2) = Inl TypeError" by (simp add: single_series_def)
  then show ?thesis using e by (simp add: render_def rerender_def)
qed

lemma handleMove_hoverI_cases:
  "hoverI (handleMove svg clientX c) = hoverI c \<or> (\<exists>i. hoverI (handleMove svg clientX c) = Some i)"
  by (cases svg; cases "series c") (simp_all add: handleMove_def Let_def hoverI_notify)

text \<open>
  C3, amended. A change of the series leaves the hover index as it is and notifies
  nobody; the chart is then rendered with the new series and the old index. A pointer
  leave sets the index to none, and it is the only event that takes a hovering chart
  to the idle state.
\<close>

theorem series_change_keeps_hover:
  "hoverI (chart_step c (SeriesChange ss)) = hoverI c \<and>
   notified (chart_step c (SeriesChange ss)) = notified c \<and>
   series (chart_step c (SeriesChange ss)) = ss \<and>
   hoverI (chart_step c MouseLeave) = None \<and>
   (hoverI c = Some i \<and> hoverI (chart_step c e) = None \<longrightarrow> e = MouseLeave)"
proof (intro conjI impI)
  assume a: "hoverI c = Some i \<and> hoverI (chart_step c e) = None"
  show "e = MouseLeave"
  proof (cases e)
    case (MouseMove svg clientX)
    then show ?thesis using a handleMove_hoverI_cases[of svg clientX c] by auto
  next
    case MouseLeave
    then show ?thesis .
  next
    case (SeriesChange ss')
    then show ?thesis using a by (auto simp add: rerender_def)
  qed
qed (simp_all add: rerender_def handleLeave_hoverI)

theorem series_change_keeps_hover_witness:
  "hoverI demo_hovering = Some 1 \<and>
   hoverI (chart_step demo_hovering MouseLeave) = None \<and>
   hoverI (chart_step demo_hovering (SeriesChange single_series)) = Some 1 \<and>
   series (chart_step demo_hovering (SeriesChange single_series)) = single_series"
proof -
  have h: "hoverI demo_hovering = Some 1" by (simp add: demo_hovering_eq)
  note t = series_change_keeps_hover [of demo_hovering single_series 1 MouseLeave]
  from t h show ?thesis by simp
qed

section \<open>Properties of the transactions\<close>

lemma reverse_balance:
  "amount tx = amt \<Longrightarrow>
   map (\<lambda>a. if a_id a = acc then a\<lparr>balance := balance a - amount tx\<rparr> else a)
     (map (\<lambda>a. if a_id a = acc then a\<lparr>balance := balance a + amt\<rparr> else a) accs) =
   map (\<lambda>a. if a_id a = acc then a\<lparr>balance := balance a + amt - amt\<rparr> else a) accs"
  by (induction accs) simp_all

lemma filter_fresh:
  "i \<notin> t_id ` set txs \<Longrightarrow> filter (\<lambda>t. t_id t \<noteq> i) txs = txs"
  by (induction txs) auto

lemma find_fresh:
  "i \<notin> t_id ` set txs \<Longrightarrow> find (\<lambda>t. t_id t = i) txs = None"
  by (induction txs) auto

lemma add_sub_exact:
  assumes "rnd b = Finite b" and "rnd (b + x) = Finite (b + x)"
  shows "Finite b + Finite x - Finite x = Finite b"
  using assms by (simp add: minus_double_def)

lemma restore_exact:
  assumes "\<forall>a\<in>set accs. a_id a = acc \<longrightarrow>
      (\<exists>b x. balance a = Finite b \<and> amt = Finite x \<and> rnd b = Finite b \<and> rnd (b + x) = Finite (b + x))"
  shows "map (\<lambda>a. if a_id a = acc then a\<lparr>balance := balance a + amt - amt\<rparr> else a) accs = accs"
  using assms
proof (induction accs)
  case Nil
  show ?case by simp
next
  case (Cons a accs)
  have r: "map (\<lambda>a. if a_id a = acc then a\<lparr>balance := balance a + amt - amt\<rparr> else a) accs = accs"
    using Cons by simp
  show ?case
  proof (cases "a_id a = acc")
    case True
    then obtain b x where bx: "balance a = Finite b" "amt = Finite x" "rnd b = Finite b"
        "rnd (b + x) = Finite (b + x)"
      using Cons.prems by auto
    have "balance a + amt - amt = balance a" unfolding bx(1,2) using bx(3,4) by (rule add_sub_exact)
    then show ?thesis using r True by simp
  next
    case False
    then show ?thesis using r by simp
  qed
qed

lemma demo_app_cents_form:
  "js_str ''5f0c'' \<notin> t_id ` set (transactions demo_app_cents)"
  "trim (desc (newTx demo_app_cents)) = js_str ''Rent''"
  "demo_Number (f_amount (newTx demo_app_cents)) = Finite (3509959974233047 / 2 ^ 40)"
  by (simp_all add: demo_app_cents_def demo_app_def demo_Number_def trim_def is_space_def js_str_def)

text \<open>
  C9, as stated, fails. In the initial state the account \<^verbatim>\<open>acc2\<close> has the balance 5000.
  Adding a transaction of the amount \<^verbatim>\<open>3192.29\<close> to it and deleting that transaction
  leaves the balance \<open>5000 + 2\<^sup>-\<^sup>4\<^sup>0\<close>, which JavaScript prints as 5000.000000000001: the
  sum \<^verbatim>\<open>5000 + 3192.29\<close> is rounded, and the subtraction does not undo the rounding.
\<close>

theorem delete_after_add_changes_balance:
  "js_str ''5f0c'' \<notin> t_id ` set (transactions demo_app_cents) \<and>
   trim (desc (newTx demo_app_cents)) = js_str ''Rent'' \<and>
   demo_Number (f_amount (newTx demo_app_cents)) = Finite (3509959974233047 / 2 ^ 40) \<and>
   rnd (3509959974233047 / 2 ^ 40) = Finite (3509959974233047 / 2 ^ 40) \<and>
   map balance (accounts demo_app_cents) = [Finite 10000, Finite 5000] \<and>
   map balance (accounts (addTransaction demo_Number (js_str ''5f0c'') (js_str ''2025-06-01'')
       demo_app_cents)) = [Finite 10000, Finite (1125939764139131 / 2 ^ 37)] \<and>
   map balance (accounts (deleteTransaction (js_str ''5f0c'')
       (addTransaction demo_Number (js_str ''5f0c'') (js_str ''2025-06-01'') demo_app_cents))) =
     [Finite 10000, Finite (5497558138880001 / 2 ^ 40)] \<and>
   (5497558138880001 / 2 ^ 40 :: real) = 5000 + 1 / 2 ^ 40"
proof -
  have r: "rnd (3509959974233047 / 2 ^ 40) = Finite (3509959974233047 / 2 ^ 40)"
    by (simp add: rnd_eval)
  have p: "Finite 5000 + Finite (3509959974233047 / 2 ^ 40) = Finite (1125939764139131 / 2 ^ 37)"
    by (simp add: rnd_eval)
  have m: "Finite (1125939764139131 / 2 ^ 37) - Finite (3509959974233047 / 2 ^ 40) =
      Finite (5497558138880001 / 2 ^ 40)"
    by (simp add: minus_double_def rnd_eval)
  have i: "map balance (accounts demo_app_cents) = [Finite 10000, Finite 5000]"
    by (simp add: demo_app_cents_def demo_app_def)
  have a: "map balance (accounts (addTransaction demo_Number (js_str ''5f0c'') (js_str ''2025-06-01'')
       demo_app_cents)) = [Finite 10000, Finite (1125939764139131 / 2 ^ 37)]"
    using demo_app_cents_form(2,3) p
    by (simp add: addTransaction_def Let_def) (simp add: demo_app_cents_def demo_app_def js_str_def)
  have d: "map balance (accounts (deleteTransaction (js_str ''5f0c'')
       (addTransaction demo_Number (js_str ''5f0c'') (js_str ''2025-06-01'') demo_app_cents))) =
     [Finite 10000, Finite (5497558138880001 / 2 ^ 40)]"
    using demo_app_cents_form(2,3) p m
    by (simp add: addTransaction_def deleteTransaction_def Let_def)
       (simp add: demo_app_cents_def demo_app_def js_str_def)
  have e: "(5497558138880001 / 2 ^ 40 :: real) = 5000 + 1 / 2 ^ 40" by simp
  show ?thesis using demo_app_cents_form r i a d e by simp
qed

text \<open>
  C9, amended. When the id that \<^verbatim>\<open>crypto.randomUUID()\<close> returns is not the id of a
  transaction of the list, \<^verbatim>\<open>addTransaction\<close> followed by \<^verbatim>\<open>deleteTransaction\<close> of that id
  restores the transaction list. With a description that is not blank and an amount
  that is not \<^verbatim>\<open>NaN\<close> the add puts the transaction at the head of the list and adds the
  amount to the balance of its account, and after the delete that balance is
  \<^verbatim>\<open>(balance + amount) - amount\<close> in doubles; every other account is as before. All
  accounts are as before when, on the account of the transaction, the balance and the
  amount are finite and their sum is a double, so that the addition does not round.
\<close>

theorem add_then_delete:
  assumes "uuid \<notin> t_id ` set (transactions st)"
  shows "transactions (deleteTransaction uuid (addTransaction Number uuid today st)) = transactions st \<and>
    (trim (desc (newTx st)) \<noteq> [] \<and> Number (f_amount (newTx st)) \<noteq> NotANumber \<longrightarrow>
       transactions (addTransaction Number uuid today st) =
         \<lparr>t_id = uuid, date = today, description = trim (desc (newTx st)),
           category = (if trim (f_category (newTx st)) = [] then js_str ''General''
                       else trim (f_category (newTx st))),
           amount = Number (f_amount (newTx st)), accountId = f_accountId (newTx st)\<rparr> # transactions st \<and>
       accounts (addTransaction Number uuid today st) =
         map (\<lambda>a. if a_id a = f_accountId (newTx st)
                   then a\<lparr>balance := balance a + Number (f_amount (newTx st))\<rparr> else a)
           (accounts st) \<and>
       accounts (deleteTransaction uuid (addTransaction Number uuid today st)) =
         map (\<lambda>a. if a_id a = f_accountId (newTx st)
                   then a\<lparr>balance := balance a + Number (f_amount (newTx st))
                                       - Number (f_amount (newTx st))\<rparr> else a)
           (accounts st)) \<and>
    ((\<forall>a\<in>set (accounts st). a_id a = f_accountId (newTx st) \<longrightarrow>
        (\<exists>b x. balance a = Finite b \<and> Number (f_amount (newTx st)) = Finite x \<and>
               rnd b = Finite b \<and> rnd (b + x) = Finite (b + x))) \<longrightarrow>
       accounts (deleteTransaction uuid (addTransaction Number uuid today st)) = accounts st)"
proof (cases "trim (desc (newTx st)) = [] \<or> Number (f_amount (newTx st)) = NotANumber")
  case True
  then have "addTransaction Number uuid today st = st"
    by (auto simp add: addTransaction_def)
  then show ?thesis
    using True assms by (auto simp add: deleteTransaction_def find_fresh)
next
  case False
  then have d: "trim (desc (newTx st)) \<noteq> []" and n: "Number (f_amount (newTx st)) \<noteq> NotANumber"
    by auto
  have t: "transactions (deleteTransaction uuid (addTransaction Number uuid today st)) = transactions st"
    using d n assms by (simp add: addTransaction_def deleteTransaction_def Let_def filter_fresh)
  have a: "transactions (addTransaction Number uuid today st) =
         \<lparr>t_id = uuid, date = today, description = trim (desc (newTx st)),
           category = (if trim (f_category (newTx st)) = [] then js_str ''General''
                       else trim (f_category (newTx st))),
           amount = Number (f_amount (newTx st)), accountId = f_accountId (newTx st)\<rparr> # transactions st"
    "accounts (addTransaction Number uuid today st) =
         map (\<lambda>a. if a_id a = f_accountId (newTx st)
                   then a\<lparr>balance := balance a + Number (f_amount (newTx st))\<rparr> else a)
           (accounts st)"
    using d n by (simp_all add: addTransaction_def Let_def)
  have b: "accounts (deleteTransaction uuid (addTransaction Number uuid today st)) =
         map (\<lambda>a. if a_id a = f_accountId (newTx st)
                   then a\<lparr>balance := balance a + Number (f_amount (newTx st))
                                       - Number (f_amount (newTx st))\<rparr> else a)
           (accounts st)"
    using d n assms
    by (simp add: addTransaction_def deleteTransaction_def Let_def reverse_balance del: map_map)
  show ?thesis
  proof (intro conjI impI)
    assume "\<forall>a\<in>set (accounts st). a_id a = f_accountId (newTx st) \<longrightarrow>
        (\<exists>b x. balance a = Finite b \<and> Number (f_amount (newTx st)) = Finite x \<and>
               rnd b = Finite b \<and> rnd (b + x) = Finite (b + x))"
    then show "accounts (deleteTransaction uuid (addTransaction Number uuid today st)) = accounts st"
      unfolding b by (rule restore_exact)
  qed (rule t a b)+
qed

theorem add_then_delete_witness:
  "js_str ''5f0c'' \<notin> t_id ` set (transactions demo_app) \<and>
   desc (newTx demo_app) = 0xA0 # js_str ''Rent '' \<and>
   trim (desc (newTx demo_app)) = js_str ''Rent'' \<and>
   demo_Number (f_amount (newTx demo_app)) = Finite (- 1200) \<and>
   map balance (accounts (addTransaction demo_Number (js_str ''5f0c'') (js_str ''2025-06-01'') demo_app)) =
     [Finite 10000, Finite 3800] \<and>
   map t_id (transactions (addTransaction demo_Number (js_str ''5f0c'') (js_str ''2025-06-01'') demo_app)) =
     [js_str ''5f0c'', js_str ''t1'', js_str ''t2''] \<and>
   transactions (deleteTransaction (js_str ''5f0c'')
       (addTransaction demo_Number (js_str ''5f0c'') (js_str ''2025-06-01'') demo_app)) =
     transactions demo_app \<and>
   accounts (deleteTransaction (js_str ''5f0c'')
       (addTransaction demo_Number (js_str ''5f0c'') (js_str ''2025-06-01'') demo_app)) =
     accounts demo_app"
proof -
  have f: "js_str ''5f0c'' \<notin> t_id ` set (transactions demo_app)"
    by (simp add: demo_app_def js_str_def)
  have e: "desc (newTx demo_app) = 0xA0 # js_str ''Rent ''" by (simp add: demo_app_def)
  have d: "trim (desc (newTx demo_app)) = js_str ''Rent''"
    by (simp add: demo_app_def trim_def is_space_def js_str_def)
  have n: "demo_Number (f_amount (newTx demo_app)) = Finite (- 1200)"
    by (simp add: demo_app_def demo_Number_def js_str_def)
  have x: "\<forall>a\<in>set (accounts demo_app). a_id a = f_accountId (newTx demo_app) \<longrightarrow>
        (\<exists>b x. balance a = Finite b \<and> demo_Number (f_amount (newTx demo_app)) = Finite x \<and>
               rnd b = Finite b \<and> rnd (b + x) = Finite (b + x))"
    unfolding n by (simp add: demo_app_def js_str_def rnd_eval)
  have p: "Finite 5000 + Finite (- 1200) = Finite 3800" by (simp add: rnd_eval)
  note t = add_then_delete [OF f, of demo_Number "js_str ''2025-06-01''"]
  have t1: "transactions (deleteTransaction (js_str ''5f0c'')
       (addTransaction demo_Number (js_str ''5f0c'') (js_str ''2025-06-01'') demo_app)) =
     transactions demo_app"
    using t by (rule conjunct1)
  have nb: "trim (desc (newTx demo_app)) \<noteq> [] \<and> demo_Number (f_amount (newTx demo_app)) \<noteq> NotANumber"
    unfolding d n by (simp add: js_str_def)
  note u = t [THEN conjunct2, THEN conjunct1, THEN mp, OF nb]
  note t2 = u [THEN conjunct1] u [THEN conjunct2, THEN conjunct1]
  have t3: "accounts (deleteTransaction (js_str ''5f0c'')
       (addTransaction demo_Number (js_str ''5f0c'') (js_str ''2025-06-01'') demo_app)) =
     accounts demo_app"
    using t [THEN conjunct2, THEN conjunct2] x by (rule mp)
  have b: "map balance (accounts (addTransaction demo_Number (js_str ''5f0c'') (js_str ''2025-06-01'')
      demo_app)) = [Finite 10000, Finite 3800]"
    unfolding t2(2) n using p by (simp add: demo_app_def js_str_def)
  have i: "map t_id (transactions (addTransaction demo_Number (js_str ''5f0c'') (js_str ''2025-06-01'')
      demo_app)) = [js_str ''5f0c'', js_str ''t1'', js_str ''t2'']"
    unfolding t2(1) by (simp add: demo_app_def)
  show ?thesis using f e d n b i t1 t3 by blast
qed

end
